theory Spec2Isabelle
  imports Main "HOL-Library.Sublist" "HOL-Library.AList"
begin

section \<open>Python values used by the Rialcom tariff parser\<close>

text \<open>
  A Python \<open>str\<close> is a sequence of Unicode code points, so a string is a list of code
  points (natural numbers) and \<open>len\<close> is \<open>length\<close>. Cyrillic literals of the source
  are written out as code points; ASCII literals are written with \<open>ascii\<close>.
  Python integers are unbounded: \<open>int\<close>. The interpreter limits the number of
  digits in a conversion between \<open>str\<close> and \<open>int\<close>; the limit is the default of
  CPython, 4300 digits.
\<close>

type_synonym ustr = "nat list"

definition ascii :: "string \<Rightarrow> ustr" where
  "ascii s = map of_char s"

text \<open>
  The exceptions, with what their messages say. A \<open>ValueError\<close> of \<open>int()\<close> is either
  \<open>invalid literal for int() with base 10\<close>, which quotes the text (the message shows the
  first 200 characters of its \<open>repr\<close>), or \<open>Exceeds the limit (4300 digits) for integer
  string conversion\<close>, which tells the number of digits; any other \<open>ValueError\<close> carries
  its message. An \<open>AttributeError\<close> names the attribute that \<open>None\<close> does not have
  (\<open>'NoneType' object has no attribute 'group'\<close>). The messages of \<open>IndexError\<close>
  (\<open>list index out of range\<close>) and of \<open>OverflowError\<close> (\<open>integer division result too
  large for a float\<close>) are fixed texts. \<open>OtherError\<close> is an exception of another class,
  by its name.
\<close>

datatype value_error = Invalid_literal ustr | Exceeds_limit nat | Message ustr

datatype error =
  IndexError | AttributeError ustr | ValueError value_error | OverflowError | ZeroDivisionError
  | OtherError ustr

text \<open>An element of one of the output lists: a \<open>str\<close> or an \<open>int\<close>.\<close>

datatype pyval = PyStr ustr | PyInt int

definition bindE :: "error + 'a \<Rightarrow> ('a \<Rightarrow> error + 'b) \<Rightarrow> error + 'b" where
  "bindE m f = (case m of Inl e \<Rightarrow> Inl e | Inr x \<Rightarrow> f x)"

text \<open>A \<open>for\<close> loop whose body may raise: the first exception ends the loop.\<close>

fun for_each :: "('a \<Rightarrow> 's \<Rightarrow> error + 's) \<Rightarrow> 'a list \<Rightarrow> 's \<Rightarrow> error + 's" where
  "for_each body [] s = Inr s"
| "for_each body (x # xs) s = bindE (body x s) (for_each body xs)"

text \<open>\<open>xs[i]\<close> for a non-negative index: \<open>IndexError\<close> out of range.\<close>

definition py_getitem :: "'a list \<Rightarrow> nat \<Rightarrow> error + 'a" where
  "py_getitem xs i = (if i < length xs then Inr (xs ! i) else Inl IndexError)"

subsection \<open>Character classes\<close>

text \<open>
  \<open>str.strip()\<close>, \<open>str.split()\<close> and the regular expression class \<open>\s\<close> use the
  interpreter's Unicode whitespace test; \<open>\d\<close> and \<open>int()\<close> use its table of decimal
  digits (general category Nd: blocks of ten consecutive code points, each block
  starting at the digit zero of a script; the blocks below are those of the Unicode
  database 14.0 of CPython 3.11). The theorems below use two facts of the table only:
  below the code point 1632 its only entries are the ASCII digits, and none of its entries
  is a whitespace character.
\<close>

definition Py_UNICODE_ISSPACE :: "nat \<Rightarrow> bool" where
  "Py_UNICODE_ISSPACE c \<longleftrightarrow>
     (9 \<le> c \<and> c \<le> 13) \<or> (28 \<le> c \<and> c \<le> 32) \<or> c = 133 \<or> c = 160 \<or> c = 5760 \<or>
     (8192 \<le> c \<and> c \<le> 8202) \<or> c = 8232 \<or> c = 8233 \<or> c = 8239 \<or> c = 8287 \<or> c = 12288"

definition decimal_zeros :: "nat list" where
  "decimal_zeros =
    [48, 1632, 1776, 1984, 2406, 2534, 2662, 2790, 2918, 3046, 3174, 3302, 3430, 3558,
     3664, 3792, 3872, 4160, 4240, 6112, 6160, 6470, 6608, 6784, 6800, 6992, 7088, 7232,
     7248, 42528, 43216, 43264, 43472, 43504, 43600, 44016, 65296, 66720, 68912, 69734,
     69872, 69942, 70096, 70384, 70736, 70864, 71248, 71360, 71472, 71904, 72016, 72784,
     73040, 73120, 92768, 92864, 93008, 120782, 120792, 120802, 120812, 120822, 123200,
     123632, 125264, 130032]"

definition Py_UNICODE_TODECIMAL :: "nat \<Rightarrow> nat option" where
  "Py_UNICODE_TODECIMAL c =
     (case filter (\<lambda>z. z \<le> c \<and> c < z + 10) decimal_zeros of
        [] \<Rightarrow> None
      | z # _ \<Rightarrow> Some (c - z))"

definition Py_UNICODE_ISDECIMAL :: "nat \<Rightarrow> bool" where
  "Py_UNICODE_ISDECIMAL c \<longleftrightarrow> Py_UNICODE_TODECIMAL c \<noteq> None"

text \<open>The ASCII whitespace test of the C parser of integer literals.\<close>

definition Py_ISSPACE :: "nat \<Rightarrow> bool" where
  "Py_ISSPACE c \<longleftrightarrow> c = 32 \<or> (9 \<le> c \<and> c \<le> 13)"

subsection \<open>String methods\<close>

definition strip :: "ustr \<Rightarrow> ustr" where
  "strip s = rev (dropWhile Py_UNICODE_ISSPACE (rev (dropWhile Py_UNICODE_ISSPACE s)))"

text \<open>\<open>s.split()\<close>: the maximal runs of non-whitespace characters, in order.\<close>

function py_split :: "ustr \<Rightarrow> ustr list" where
  "py_split s =
     (let t = dropWhile Py_UNICODE_ISSPACE s
      in if t = [] then []
         else takeWhile (\<lambda>c. \<not> Py_UNICODE_ISSPACE c) t
              # py_split (dropWhile (\<lambda>c. \<not> Py_UNICODE_ISSPACE c) t))"
  by pat_completeness auto
termination
proof (relation "measure length")
  fix s t :: ustr
  assume t: "t = dropWhile Py_UNICODE_ISSPACE s" and ne: "t \<noteq> []"
  from ne obtain c cs where cs: "t = c # cs"
    by (cases t) auto
  have "\<not> Py_UNICODE_ISSPACE (hd t)"
    unfolding t by (rule hd_dropWhile) (use t ne in simp)
  then have "\<not> Py_UNICODE_ISSPACE c"
    by (simp add: cs)
  then have "length (dropWhile (\<lambda>c. \<not> Py_UNICODE_ISSPACE c) t) \<le> length cs"
    by (simp add: cs length_dropWhile_le)
  moreover have "length t \<le> length s"
    by (simp add: t length_dropWhile_le)
  ultimately show "(dropWhile (\<lambda>c. \<not> Py_UNICODE_ISSPACE c) t, s) \<in> measure length"
    by (simp add: cs)
qed simp

text \<open>\<open>sep.join(xs)\<close>\<close>

fun join :: "ustr \<Rightarrow> ustr list \<Rightarrow> ustr" where
  "join sep [] = []"
| "join sep [x] = x"
| "join sep (x # y # ys) = x @ sep @ join sep (y # ys)"

text \<open>
  \<open>str(n)\<close> of an integer, as the f-string \<open>{speed}\<close> formats it. The parser formats
  only what \<open>int()\<close> has returned from a digit run, a number of at most 4300 digits, so
  the limit on the digits of \<open>str()\<close> is never reached there.
\<close>

fun digits_of_nat :: "nat \<Rightarrow> ustr" where
  "digits_of_nat n = (if n < 10 then [48 + n] else digits_of_nat (n div 10) @ [48 + n mod 10])"

definition str_of_int :: "int \<Rightarrow> ustr" where
  "str_of_int i = (if i < 0 then 45 # digits_of_nat (nat (- i)) else digits_of_nat (nat i))"

subsection \<open>\<open>int(s)\<close> of a string\<close>

text \<open>
  CPython first maps every non-ASCII whitespace character to a space and every
  non-ASCII decimal digit to its ASCII digit, stopping with a question mark at a
  character that is neither; then the C parser skips ASCII whitespace, reads a sign, and
  reads digits in which single underscores may separate digits; more digits than the
  limit are refused; after trailing whitespace the text must end.
\<close>

definition int_max_str_digits :: nat where
  "int_max_str_digits = 4300"

fun transform_decimal_and_space :: "ustr \<Rightarrow> ustr" where
  "transform_decimal_and_space [] = []"
| "transform_decimal_and_space (c # cs) =
     (if c < 127 then c # transform_decimal_and_space cs
      else if Py_UNICODE_ISSPACE c then 32 # transform_decimal_and_space cs
      else (case Py_UNICODE_TODECIMAL c of
              None \<Rightarrow> [63]
            | Some d \<Rightarrow> (48 + d) # transform_decimal_and_space cs))"

definition ascii_digit :: "nat \<Rightarrow> bool" where
  "ascii_digit c \<longleftrightarrow> 48 \<le> c \<and> c \<le> 57"

text \<open>
  The digit scan: \<open>prev\<close> is the previous character, \<open>acc\<close> the value read so far,
  \<open>digits\<close> the number of digits read so far (underscores are not counted, leading
  zeros are). Returns the value, the number of digits and the unread rest, or \<open>None\<close>
  for a doubled or trailing underscore.
\<close>

fun scan_digits :: "nat \<Rightarrow> int \<Rightarrow> nat \<Rightarrow> ustr \<Rightarrow> (int \<times> nat \<times> ustr) option" where
  "scan_digits prev acc digits [] = (if prev = 95 then None else Some (acc, digits, []))"
| "scan_digits prev acc digits (c # cs) =
     (if ascii_digit c then scan_digits c (10 * acc + int (c - 48)) (digits + 1) cs
      else if c = 95 then (if prev = 95 then None else scan_digits c acc digits cs)
      else if prev = 95 then None
      else Some (acc, digits, c # cs))"

definition read_sign :: "ustr \<Rightarrow> int \<times> ustr" where
  "read_sign s =
     (case s of
        [] \<Rightarrow> (1, [])
      | c # cs \<Rightarrow> if c = 43 then (1, cs) else if c = 45 then (- 1, cs) else (1, s))"

definition py_int :: "ustr \<Rightarrow> error + int" where
  "py_int s =
     (let (sign, body) = read_sign (dropWhile Py_ISSPACE (transform_decimal_and_space s))
      in case body of
           [] \<Rightarrow> Inl (ValueError (Invalid_literal s))
         | c # _ \<Rightarrow>
             if \<not> ascii_digit c then Inl (ValueError (Invalid_literal s))
             else (case scan_digits 0 0 0 body of
                     None \<Rightarrow> Inl (ValueError (Invalid_literal s))
                   | Some (v, digits, rest) \<Rightarrow>
                       if int_max_str_digits < digits
                         then Inl (ValueError (Exceeds_limit digits))
                       else if dropWhile Py_ISSPACE rest = [] then Inr (sign * v)
                       else Inl (ValueError (Invalid_literal s))))"

subsection \<open>\<open>int(a / b)\<close>: true division, then truncation\<close>

text \<open>
  \<open>a / b\<close> on integers is the IEEE double nearest to the exact quotient (ties to the
  even mantissa), \<open>OverflowError\<close> when that exceeds the largest double, and \<open>int\<close> of
  a float drops its fraction. The quotient is scaled by a power of two until its
  integer part has 53 bits, rounded to an integer mantissa, and scaled back.
\<close>

function scale_up :: "nat \<Rightarrow> nat \<Rightarrow> nat" where
  "scale_up n d = (if n = 0 \<or> d = 0 \<or> 2 ^ 52 * d \<le> n then 0 else Suc (scale_up (2 * n) d))"
  by pat_completeness auto
termination
  by (relation "measure (\<lambda>(n, d). 2 ^ 52 * d - n)") auto

function scale_down :: "nat \<Rightarrow> nat \<Rightarrow> nat" where
  "scale_down n d = (if d = 0 \<or> n < 2 ^ 53 * d then 0 else Suc (scale_down n (2 * d)))"
  by pat_completeness auto
termination
  by (relation "measure (\<lambda>(n, d). Suc n - 2 ^ 53 * d)") auto

definition round_half_even :: "nat \<Rightarrow> nat \<Rightarrow> nat" where
  "round_half_even n d =
     (let q = n div d; r = n mod d
      in if 2 * r < d \<or> (2 * r = d \<and> even q) then q else q + 1)"

definition truediv_trunc :: "nat \<Rightarrow> nat \<Rightarrow> error + nat" where
  "truediv_trunc a b =
     (if a = 0 then Inr 0
      else if a < 2 ^ 52 * b then
        (let s = min (scale_up a b) 1074
         in Inr (round_half_even (a * 2 ^ s) b div 2 ^ s))
      else
        (let t = scale_down a b;
             v = round_half_even a (b * 2 ^ t) * 2 ^ t
         in if 2 ^ 1024 \<le> v then Inl OverflowError else Inr v))"

definition int_of_truediv :: "int \<Rightarrow> int \<Rightarrow> error + int" where
  "int_of_truediv a b =
     (if b = 0 then Inl ZeroDivisionError
      else bindE (truediv_trunc (nat \<bar>a\<bar>) (nat \<bar>b\<bar>)) (\<lambda>v. Inr (sgn a * sgn b * int v)))"

subsection \<open>Regular expressions of the parser\<close>

text \<open>
  \<open>re.search(lit, s) is not None\<close> for a pattern without metacharacters, as the two
  Cyrillic words of the source are: \<open>lit\<close> occurs in \<open>s\<close>.
\<close>

fun re_search_literal :: "ustr \<Rightarrow> ustr \<Rightarrow> bool" where
  "re_search_literal lit [] = (lit = [])"
| "re_search_literal lit (c # cs) = (prefix lit (c # cs) \<or> re_search_literal lit cs)"

text \<open>
  \<open>re.search(r'\d+', s)\<close>: the leftmost decimal digit and the maximal run of digits
  from there (\<open>+\<close> is greedy); \<open>None\<close> when \<open>s\<close> has no digit.
\<close>

definition re_search_digits :: "ustr \<Rightarrow> ustr option" where
  "re_search_digits s =
     (case dropWhile (\<lambda>c. \<not> Py_UNICODE_ISDECIMAL c) s of
        [] \<Rightarrow> None
      | t \<Rightarrow> Some (takeWhile Py_UNICODE_ISDECIMAL t))"

text \<open>\<open>m.group()\<close> and \<open>m.groupdict()\<close> on the result of a search: \<open>None\<close> has neither.\<close>

definition group :: "'a option \<Rightarrow> error + 'a" where
  "group m = (case m of None \<Rightarrow> Inl (AttributeError (ascii ''group'')) | Some g \<Rightarrow> Inr g)"

definition groupdict :: "'a option \<Rightarrow> error + 'a" where
  "groupdict m =
     (case m of None \<Rightarrow> Inl (AttributeError (ascii ''groupdict'')) | Some g \<Rightarrow> Inr g)"

text \<open>
  The bundle pattern \<^verbatim>\<open>(?P<name>[\s\S]*?)\s*\((?P<num>\d+)[\s\S]*\)\<close>.
  \<open>match_parenthetical\<close> matches the part after the group \<open>name\<close> at the start of a
  text: whitespace, an opening parenthesis (code point 40), a maximal run of digits, and
  a closing parenthesis (41) somewhere behind them; it returns the digits. Taking fewer
  whitespace characters or fewer digits cannot help a match, since the character that
  follows would again be whitespace or a digit. The group \<open>name\<close> is lazy: it is the
  shortest prefix after which the rest of the pattern matches.
\<close>

definition match_parenthetical :: "ustr \<Rightarrow> ustr option" where
  "match_parenthetical s =
     (case dropWhile Py_UNICODE_ISSPACE s of
        [] \<Rightarrow> None
      | c # cs \<Rightarrow>
          if c \<noteq> 40 then None
          else let num = takeWhile Py_UNICODE_ISDECIMAL cs;
                   rest = dropWhile Py_UNICODE_ISDECIMAL cs
               in if num \<noteq> [] \<and> 41 \<in> set rest then Some num else None)"

fun re_search_label_from :: "ustr \<Rightarrow> ustr \<Rightarrow> (ustr \<times> ustr) option" where
  "re_search_label_from name [] =
     (case match_parenthetical [] of None \<Rightarrow> None | Some num \<Rightarrow> Some (name, num))"
| "re_search_label_from name (c # cs) =
     (case match_parenthetical (c # cs) of
        Some num \<Rightarrow> Some (name, num)
      | None \<Rightarrow> re_search_label_from (name @ [c]) cs)"

definition re_search_label :: "ustr \<Rightarrow> (ustr \<times> ustr) option" where
  "re_search_label s = re_search_label_from [] s"

section \<open>The parser\<close>

subsection \<open>Input and object state\<close>

text \<open>
  The parsed page is read through \<open>find_all\<close> only: the tables of the page, the rows
  (\<open>tr\<close>) of a table, the header cells (\<open>th\<close>) and the data cells (\<open>td\<close>) of a row, and
  the text of a cell. A row is the texts of its header cells and of its data cells,
  exactly as \<open>get_text()\<close> returns them (not stripped).
\<close>

record row =
  ths :: "ustr list"
  tds :: "ustr list"

type_synonym table = "row list"

text \<open>
  The attributes that \<open>ParserRialcom.__init__\<close> sets, together with \<open>data\<close>, which
  \<open>load_data\<close> and \<open>DataRialcom.__init__\<close> set. \<open>DataRialcom\<close> inherits all of them.
  The base class \<open>DataParser\<close> is not among the sources; its initialiser runs before
  the five attributes are assigned and so cannot change them.
\<close>

record parser =
  data :: "table list"
  names :: "ustr list"
  channels :: "pyval list"
  speeds :: "int list"
  payments :: "int list"
  count_tariff_channel :: "ustr \<rightharpoonup> int"

definition DataRialcom_init :: "table list \<Rightarrow> parser" where
  "DataRialcom_init d =
     \<lparr>data = d, names = [], channels = [], speeds = [], payments = [],
      count_tariff_channel = Map.empty\<rparr>"

subsection \<open>Literals of the source\<close>

definition lit_tariff :: ustr where
  "lit_tariff = [1090, 1072, 1088, 1080, 1092]"

definition lit_Internet :: ustr where
  "lit_Internet = [1048, 1085, 1090, 1077, 1088, 1085, 1077, 1090]"

definition lit_null :: ustr where
  "lit_null = ascii ''null''"

definition lit_connector :: ustr where
  "lit_connector =
     ascii '' + '' @ [1056, 1080, 1072, 1083, 1050, 1086, 1084] @ ascii '' '' @ lit_Internet @ ascii '' ''"

definition lit_TB :: ustr where
  "lit_TB = ascii '' + TB''"

definition lit_TB_ch :: ustr where
  "lit_TB_ch = ascii '' + TB_'' @ [1095]"

definition headers :: "ustr list" where
  "headers =
     [[1053, 1072, 1079, 1074, 1072, 1085, 1080, 1077, 32, 1090, 1072, 1088, 1080, 1092, 1072],
      [1050, 1086, 1083, 1080, 1095, 1077, 1089, 1090, 1074, 1086, 32, 1082, 1072, 1085, 1072,
       1083, 1086, 1074],
      [1057, 1082, 1086, 1088, 1086, 1089, 1090, 1100, 32, 1076, 1086, 1089, 1090, 1091, 1087,
       1072],
      [1040, 1073, 1086, 1085, 1077, 1085, 1090, 1089, 1082, 1072, 1103, 32, 1087, 1083, 1072,
       1090, 1072]]"

subsection \<open>Tables of format 1\<close>

text \<open>The body of the loop of \<open>__process_tariff\<close>, for one row.\<close>

definition process_tariff_row :: "row \<Rightarrow> parser \<Rightarrow> error + parser" where
  "process_tariff_row r self =
     (let columns = tds r
      in bindE (py_getitem columns 0) (\<lambda>c0.
         let self1 = self\<lparr>names := names self @ [strip c0]\<rparr>;
             self2 = self1\<lparr>channels := channels self1 @ [PyStr lit_null]\<rparr>
         in bindE (py_getitem columns 3) (\<lambda>c3.
            bindE (group (re_search_digits (strip c3))) (\<lambda>g.
            bindE (py_int g) (\<lambda>n.
            bindE (int_of_truediv n 1000) (\<lambda>speed.
            let self3 = self2\<lparr>speeds := speeds self2 @ [speed]\<rparr>
            in bindE (py_getitem columns 1) (\<lambda>c1.
               bindE (py_getitem (py_split (strip c1)) 0) (\<lambda>token.
               bindE (py_int token) (\<lambda>payment.
               Inr (self3\<lparr>payments := payments self3 @ [payment]\<rparr>))))))))))"

definition process_tariff :: "row list \<Rightarrow> parser \<Rightarrow> error + parser" where
  "process_tariff rows self = for_each process_tariff_row (drop 1 rows) self"

subsection \<open>Tables of format 2\<close>

text \<open>The body of the loop of \<open>__wrtite_tariff_TV\<close>, for the column \<open>i\<close>.\<close>

definition wrtite_tariff_TV_column ::
  "ustr list \<Rightarrow> ustr list \<Rightarrow> int \<Rightarrow> bool \<Rightarrow> ustr \<Rightarrow> nat \<Rightarrow> parser \<Rightarrow> error + parser" where
  "wrtite_tariff_TV_column heads columns channel is_tariff tariff i self =
     bindE (py_getitem heads i) (\<lambda>h.
     let head = strip h
     in bindE (group (re_search_digits head)) (\<lambda>g.
        bindE (py_int g) (\<lambda>speed.
        let name = tariff @ lit_connector @ str_of_int speed @ (if is_tariff then lit_TB_ch else lit_TB);
            self1 = self\<lparr>names := names self @ [name]\<rparr>;
            self2 = self1\<lparr>channels := channels self1 @ [PyInt channel]\<rparr>;
            self3 = self2\<lparr>speeds := speeds self2 @ [speed]\<rparr>
        in bindE (py_getitem columns i) (\<lambda>c.
           bindE (py_int (strip c)) (\<lambda>payment.
           Inr (self3\<lparr>payments := payments self3 @ [payment]\<rparr>))))))"

definition wrtite_tariff_TV ::
  "ustr list \<Rightarrow> ustr list \<Rightarrow> int \<Rightarrow> bool \<Rightarrow> ustr \<Rightarrow> parser \<Rightarrow> error + parser" where
  "wrtite_tariff_TV heads columns channel is_tariff tariff self =
     for_each (wrtite_tariff_TV_column heads columns channel is_tariff tariff)
       [1 ..< length heads] self"

text \<open>The body of the loop of \<open>__process_tariff_TV\<close>, for one row.\<close>

definition process_tariff_TV_row :: "ustr list \<Rightarrow> row \<Rightarrow> parser \<Rightarrow> error + parser" where
  "process_tariff_TV_row heads r self =
     (let columns = tds r
      in bindE (py_getitem columns 0) (\<lambda>c0.
         let tariff = strip c0
         in case count_tariff_channel self tariff of
              Some channel \<Rightarrow> wrtite_tariff_TV heads columns channel True tariff self
            | None \<Rightarrow>
                bindE (groupdict (re_search_label tariff)) (\<lambda>(name, num_text).
                bindE (py_int num_text) (\<lambda>num.
                let self1 = self\<lparr>count_tariff_channel := (count_tariff_channel self)(name \<mapsto> num)\<rparr>
                in wrtite_tariff_TV heads columns num False tariff self1))))"

definition process_tariff_TV :: "row list \<Rightarrow> ustr list \<Rightarrow> parser \<Rightarrow> error + parser" where
  "process_tariff_TV rows heads self = for_each (process_tariff_TV_row heads) (drop 1 rows) self"

subsection \<open>\<open>process_data\<close> and \<open>save_data\<close>\<close>

text \<open>The body of the loop of \<open>DataRialcom.process_data\<close>, for one table.\<close>

definition process_table :: "table \<Rightarrow> parser \<Rightarrow> error + parser" where
  "process_table rows self =
     bindE (py_getitem rows 0) (\<lambda>r0.
     let heads = ths r0;
         united_heads = join (ascii '' '') heads
     in if re_search_literal lit_tariff united_heads then process_tariff rows self
        else if re_search_literal lit_Internet united_heads then process_tariff_TV rows heads self
        else Inr self)"

text \<open>The list of the four lists that \<open>process_data\<close> returns.\<close>

definition result_lists :: "parser \<Rightarrow> pyval list list" where
  "result_lists self =
     [map PyStr (names self), channels self, map PyInt (speeds self), map PyInt (payments self)]"

definition run_tables :: "parser \<Rightarrow> error + parser" where
  "run_tables self = for_each process_table (data self) self"

definition DataRialcom_process_data :: "parser \<Rightarrow> error + pyval list list" where
  "DataRialcom_process_data self = bindE (run_tables self) (\<lambda>self'. Inr (result_lists self'))"

text \<open>
  \<open>ParserRialcom.process_data\<close> builds a new \<open>DataRialcom\<close> from \<open>self.data\<close> and
  returns what its \<open>process_data\<close> returns; \<open>self\<close> is not assigned to.
\<close>

definition ParserRialcom_process_data :: "parser \<Rightarrow> error + pyval list list" where
  "ParserRialcom_process_data self =
     (let processRialcom = DataRialcom_init (data self)
      in DataRialcom_process_data processRialcom)"

text \<open>
  \<open>save_data\<close> fills a dictionary (insertion-ordered: an association list) with
  \<open>headers[i]\<close> \<open>\<mapsto>\<close> \<open>data[i]\<close>, has pandas build a data frame from it
  (\<open>pd.DataFrame(_dict)\<close>) and write the frame (\<open>df.to_excel(f"{name}.xlsx",
  index=False)\<close>).

  pandas is a library, not code of the parser. A frame built from a dictionary of lists
  has the keys as its columns, in the order of insertion; \<open>to_excel\<close> writes the columns
  under their labels to the file of the given path, with a further column for the row
  index when \<open>index\<close> is true. Whether either call raises depends on pandas, on the
  Excel engine installed and on the file system, and is a parameter: for each call the
  exception it raises, if any.
\<close>

type_synonym dataframe = "(ustr \<times> pyval list) list"

record pandas =
  DataFrame_raises :: "dataframe \<Rightarrow> error option"
  to_excel_raises :: "dataframe \<Rightarrow> ustr \<Rightarrow> bool \<Rightarrow> error option"

record export =
  file_name :: ustr
  index_column :: bool
  frame :: dataframe

definition DataFrame :: "pandas \<Rightarrow> dataframe \<Rightarrow> error + dataframe" where
  "DataFrame pd dict = (case DataFrame_raises pd dict of Some e \<Rightarrow> Inl e | None \<Rightarrow> Inr dict)"

definition to_excel :: "pandas \<Rightarrow> dataframe \<Rightarrow> ustr \<Rightarrow> bool \<Rightarrow> error + export" where
  "to_excel pd df path index =
     (case to_excel_raises pd df path index of
        Some e \<Rightarrow> Inl e
      | None \<Rightarrow> Inr \<lparr>file_name = path, index_column = index, frame = df\<rparr>)"

definition save_data_column ::
  "pyval list list \<Rightarrow> nat \<Rightarrow> dataframe \<Rightarrow> error + dataframe" where
  "save_data_column data_lists i dict =
     bindE (py_getitem headers i) (\<lambda>h.
     bindE (py_getitem data_lists i) (\<lambda>d.
     Inr (AList.update h d dict)))"

definition save_data :: "pandas \<Rightarrow> parser \<Rightarrow> ustr \<Rightarrow> error + export" where
  "save_data pd self name =
     bindE (ParserRialcom_process_data self) (\<lambda>data_lists.
     bindE (for_each (save_data_column data_lists) [0 ..< length headers] []) (\<lambda>dict.
     bindE (DataFrame pd dict) (\<lambda>df.
     to_excel pd df (name @ ascii ''.xlsx'') False)))"

text \<open>\<open>save_data()\<close> without an argument: the default of \<open>name\<close> is \<open>"example"\<close>.\<close>

definition save_data_default :: "pandas \<Rightarrow> parser \<Rightarrow> error + export" where
  "save_data_default pd self = save_data pd self (ascii ''example'')"

section \<open>Example pages\<close>

text \<open>
  The rows and tables of the examples of the specification, as code points. The header
  of the format 1 table reads \<open>Nazvanie tarifa\<close>, \<open>Cena\<close>, \<open>-\<close>, \<open>Skorost\<close> in
  Cyrillic; its data row is \<open>Start\<close>, \<open>350 rub\<close>, \<open>-\<close>, \<open>Skorost do 30 Mbit/s\<close>, and
  a second row has \<open>Skorost do 1500 Kbit/s\<close> in cell 3. The header of the format 2
  table reads \<open>Paket\<close>, \<open>Internet 50 Mbit/s\<close>, \<open>Internet 100 Mbit/s\<close>; the bundle
  label is \<open>Komfort (120 kanalov)\<close> and its base name \<open>Komfort\<close>; the text that is no
  payment is \<open>utochnit\<close>. The header \<open>Telefon\<close> belongs to neither format. Further
  tables put a malformed cell at a chosen place: a format 1 row whose cell 3 has no
  digit, a format 2 header cell without a digit, a payment that is no number in the
  second data row.
\<close>

definition ex_Start :: ustr where
  "ex_Start = [1057, 1090, 1072, 1088, 1090]"

definition ex_350_rub :: ustr where
  "ex_350_rub = [51, 53, 48, 32, 1088, 1091, 1073]"

definition ex_speed_30 :: ustr where
  "ex_speed_30 =
     [1057, 1082, 1086, 1088, 1086, 1089, 1090, 1100, 32, 1076, 1086, 32, 51, 48, 32, 1052, 1073,
      1080, 1090, 47, 1089]"

definition ex_speed_1500 :: ustr where
  "ex_speed_1500 =
     [1057, 1082, 1086, 1088, 1086, 1089, 1090, 1100, 32, 1076, 1086, 32, 49, 53, 48, 48, 32, 1050,
      1073, 1080, 1090, 47, 1089]"

definition ex_Skorost :: ustr where
  "ex_Skorost = [1057, 1082, 1086, 1088, 1086, 1089, 1090, 1100]"

definition ex_Cena :: ustr where
  "ex_Cena = [1062, 1077, 1085, 1072]"

definition ex_Paket :: ustr where
  "ex_Paket = [1055, 1072, 1082, 1077, 1090]"

definition ex_Telefon :: ustr where
  "ex_Telefon = [1058, 1077, 1083, 1077, 1092, 1086, 1085]"

definition ex_Internet_50 :: ustr where
  "ex_Internet_50 =
     [1048, 1085, 1090, 1077, 1088, 1085, 1077, 1090, 32, 53, 48, 32, 1052, 1073, 1080, 1090, 47,
      1089]"

definition ex_Internet_100 :: ustr where
  "ex_Internet_100 =
     [1048, 1085, 1090, 1077, 1088, 1085, 1077, 1090, 32, 49, 48, 48, 32, 1052, 1073, 1080, 1090,
      47, 1089]"

definition ex_Komfort :: ustr where
  "ex_Komfort = [1050, 1086, 1084, 1092, 1086, 1088, 1090]"

definition ex_Komfort_120 :: ustr where
  "ex_Komfort_120 =
     [1050, 1086, 1084, 1092, 1086, 1088, 1090, 32, 40, 49, 50, 48, 32, 1082, 1072, 1085, 1072,
      1083, 1086, 1074, 41]"

definition ex_utochnit :: ustr where
  "ex_utochnit = [1091, 1090, 1086, 1095, 1085, 1080, 1090, 1100]"

definition ex_head_A :: row where
  "ex_head_A = \<lparr>ths = [headers ! 0, ex_Cena, ascii ''-'', ex_Skorost], tds = []\<rparr>"

definition ex_row_Start :: row where
  "ex_row_Start = \<lparr>ths = [], tds = [ex_Start, ex_350_rub, ascii ''-'', ex_speed_30]\<rparr>"

definition ex_row_1500 :: row where
  "ex_row_1500 = \<lparr>ths = [], tds = [ex_Start, ex_350_rub, ascii ''-'', ex_speed_1500]\<rparr>"

definition ex_table_A :: table where
  "ex_table_A = [ex_head_A, ex_row_Start]"

definition ex_head_B :: row where
  "ex_head_B = \<lparr>ths = [ex_Paket, ex_Internet_50, ex_Internet_100], tds = []\<rparr>"

definition ex_row_Komfort_120 :: row where
  "ex_row_Komfort_120 = \<lparr>ths = [], tds = [ex_Komfort_120, ascii ''600'', ascii ''800'']\<rparr>"

definition ex_row_Komfort :: row where
  "ex_row_Komfort = \<lparr>ths = [], tds = [ex_Komfort, ascii ''650'', ascii ''850'']\<rparr>"

definition ex_row_utochnit :: row where
  "ex_row_utochnit = \<lparr>ths = [], tds = [ex_Komfort_120, ex_utochnit, ascii ''800'']\<rparr>"

definition ex_table_B :: table where
  "ex_table_B = [ex_head_B, ex_row_Komfort_120]"

definition ex_table_B_base :: table where
  "ex_table_B_base = [ex_head_B, ex_row_Komfort]"

definition ex_table_B_utochnit :: table where
  "ex_table_B_utochnit = [ex_head_B, ex_row_utochnit]"

definition ex_table_other :: table where
  "ex_table_other = [\<lparr>ths = [ex_Telefon], tds = []\<rparr>, \<lparr>ths = [], tds = [ascii ''x'']\<rparr>]"

definition ex_table_both :: table where
  "ex_table_both = [\<lparr>ths = [ex_Internet_50, headers ! 0], tds = []\<rparr>, ex_row_1500]"

definition ex_table_B_late :: table where
  "ex_table_B_late =
     [ex_head_B, ex_row_Komfort_120, \<lparr>ths = [], tds = [ex_Komfort, ascii ''650'', ex_utochnit]\<rparr>]"

definition ex_table_A_no_speed :: table where
  "ex_table_A_no_speed =
     [ex_head_A, ex_row_Start, \<lparr>ths = [], tds = [ex_Start, ex_350_rub, ascii ''-'', ex_Skorost]\<rparr>]"

definition ex_table_B_no_speed :: table where
  "ex_table_B_no_speed =
     [\<lparr>ths = [ex_Paket, ex_Internet_50, ex_Cena], tds = []\<rparr>, ex_row_Komfort_120]"

text \<open>
  A header whose cells split the two words: \<open>ta\<close>, \<open>rif\<close>, \<open>Inter\<close>, \<open>net\<close> in Cyrillic.
\<close>

definition ex_table_split :: table where
  "ex_table_split =
     [\<lparr>ths = [[1090, 1072], [1088, 1080, 1092], [1048, 1085, 1090, 1077, 1088], [1085, 1077, 1090]],
       tds = []\<rparr>,
      ex_row_Start]"

text \<open>A header with the two words in another case: \<open>TARIF\<close> and \<open>internet\<close> in Cyrillic.\<close>

definition ex_table_case :: table where
  "ex_table_case =
     [\<lparr>ths = [[1058, 1040, 1056, 1048, 1060], [1080, 1085, 1090, 1077, 1088, 1085, 1077, 1090]],
       tds = []\<rparr>,
      ex_row_Start]"

definition ex_table_A_no_payment :: table where
  "ex_table_A_no_payment =
     [ex_head_A, \<lparr>ths = [], tds = [ex_Start, ex_utochnit, ascii ''-'', ex_speed_1500]\<rparr>]"

text \<open>
  A pandas for the examples. It raises for the path \<open>.xlsx\<close>, as pandas does: the path
  has no extension (\<open>os.path.splitext\<close> takes a leading dot as part of the name), and
  pandas finds no Excel engine for the empty extension (\<open>ValueError\<close>, \<open>No engine for
  filetype\<close>, followed by the empty extension in quotes, code point 39). It raises for
  no other argument.
\<close>

definition ex_pandas :: pandas where
  "ex_pandas =
     \<lparr>DataFrame_raises = (\<lambda>dict. None),
      to_excel_raises = (\<lambda>df path index.
        if path = ascii ''.xlsx''
        then Some (ValueError (Message (ascii ''No engine for filetype: '' @ [39, 39])))
        else None)\<rparr>"

text \<open>The parser after the format 2 example table, processed by a fresh object.\<close>

definition ex_state_after_B :: parser where
  "ex_state_after_B =
     \<lparr>data = [],
      names = [ex_Komfort_120 @ lit_connector @ ascii ''50'' @ lit_TB,
               ex_Komfort_120 @ lit_connector @ ascii ''100'' @ lit_TB],
      channels = [PyInt 120, PyInt 120],
      speeds = [50, 100],
      payments = [600, 800],
      count_tariff_channel = [ex_Komfort \<mapsto> 120]\<rparr>"

text \<open>A parser object whose own registry holds the full bundle label.\<close>

definition ex_parser_with_registry :: parser where
  "ex_parser_with_registry =
     \<lparr>data = [ex_table_B], names = [ex_Start], channels = [PyInt 7], speeds = [1],
      payments = [2], count_tariff_channel = [ex_Komfort_120 \<mapsto> 5]\<rparr>"

section \<open>Notions used in the statements\<close>

text \<open>The four output lists have the same length.\<close>

definition equal_lengths :: "parser \<Rightarrow> bool" where
  "equal_lengths self \<longleftrightarrow>
     length (names self) = length (channels self) \<and>
     length (channels self) = length (speeds self) \<and>
     length (speeds self) = length (payments self)"

text \<open>The number that a run of decimal digits denotes, most significant digit first.\<close>

definition digits_value :: "ustr \<Rightarrow> int" where
  "digits_value g = foldl (\<lambda>a c. 10 * a + int (the (Py_UNICODE_TODECIMAL c))) 0 g"

text \<open>The ASCII digit with the value of a decimal digit.\<close>

definition to_ascii_digit :: "nat \<Rightarrow> nat" where
  "to_ascii_digit c = 48 + the (Py_UNICODE_TODECIMAL c)"

text \<open>No key of the channel registry has a parenthesised group that the bundle pattern matches.\<close>

definition plain_keys :: "parser \<Rightarrow> bool" where
  "plain_keys self \<longleftrightarrow> (\<forall>k \<in> dom (count_tariff_channel self). re_search_label k = None)"

text \<open>
  Column \<open>j\<close> of a row of format 2 is well formed: the row has a data cell \<open>j\<close>, the header
  cell \<open>j\<close> has a digit run of at most 4300 digits, and the data cell, stripped, is an
  integer literal.
\<close>

definition column_well_formed :: "ustr list \<Rightarrow> ustr list \<Rightarrow> nat \<Rightarrow> bool" where
  "column_well_formed heads cols j \<longleftrightarrow>
     j < length cols \<and>
     (\<exists>g. re_search_digits (strip (heads ! j)) = Some g \<and> length g \<le> 4300) \<and>
     (\<exists>p. py_int (strip (cols ! j)) = Inr p)"

text \<open>
  The label of a row of format 2 gives a channel count: it is a key of the registry, or
  the bundle pattern matches it with a group of at most 4300 digits.
\<close>

definition label_resolves :: "parser \<Rightarrow> ustr \<Rightarrow> bool" where
  "label_resolves self t \<longleftrightarrow>
     count_tariff_channel self t \<noteq> None \<or>
     (\<exists>name num. re_search_label t = Some (name, num) \<and> length num \<le> 4300)"

section \<open>Basic facts\<close>

subsection \<open>Exceptions and loops\<close>

lemma bindE_Inl [simp]: "bindE (Inl e) f = Inl e"
  by (simp add: bindE_def)

lemma bindE_Inr [simp]: "bindE (Inr x) f = f x"
  by (simp add: bindE_def)

lemma bindE_eq_Inr: "bindE m f = Inr y \<longleftrightarrow> (\<exists>x. m = Inr x \<and> f x = Inr y)"
  by (cases m) simp_all

lemma for_each_append:
  "for_each body (xs @ ys) s = bindE (for_each body xs s) (for_each body ys)"
  by (induction xs arbitrary: s) (simp_all add: bindE_def split: sum.splits)

lemma for_each_invariant:
  assumes step: "\<And>x s s'. P s \<Longrightarrow> body x s = Inr s' \<Longrightarrow> P s'"
    and init: "P s"
    and run: "for_each body xs s = Inr s'"
  shows "P s'"
  using init run
proof (induction xs arbitrary: s)
  case Nil
  then show ?case by simp
next
  case (Cons x xs)
  from Cons.prems(2) obtain s1
    where s1: "body x s = Inr s1" and rest: "for_each body xs s1 = Inr s'"
    by (auto simp: bindE_eq_Inr)
  from step [OF Cons.prems(1) s1] have "P s1" .
  then show ?case using rest by (rule Cons.IH)
qed


lemma for_each_raises:
  assumes "for_each body xs s = Inr s1" and "body x s1 = Inl e"
  shows "for_each body (xs @ x # ys) s = Inl e"
  using assms by (simp add: for_each_append)

lemma process_table_Nil: "process_table [] self = Inl IndexError"
  by (simp add: process_table_def py_getitem_def)

lemma data_DataRialcom_init [simp]: "data (DataRialcom_init d) = d"
  by (simp add: DataRialcom_init_def)

subsection \<open>The character tables below the first non-ASCII block of digits\<close>

lemma TODECIMAL_low:
  "c < 1632 \<Longrightarrow>
   Py_UNICODE_TODECIMAL c = (if 48 \<le> c \<and> c < 58 then Some (c - 48) else None)"
  by (simp add: Py_UNICODE_TODECIMAL_def decimal_zeros_def)

lemma ISDECIMAL_low: "c < 1632 \<Longrightarrow> Py_UNICODE_ISDECIMAL c \<longleftrightarrow> 48 \<le> c \<and> c < 58"
  by (simp add: Py_UNICODE_ISDECIMAL_def TODECIMAL_low)

subsection \<open>Digits and \<open>int()\<close>\<close>


lemma re_search_literal_sublist: "re_search_literal lit s \<longleftrightarrow> sublist lit s"
  by (induction s) (simp_all add: sublist_Cons_right)

lemma TODECIMAL_Some:
  assumes "Py_UNICODE_TODECIMAL c = Some d"
  shows "\<exists>z \<in> set decimal_zeros. z \<le> c \<and> c < z + 10 \<and> d = c - z"
proof -
  from assms obtain z zs where f: "filter (\<lambda>z. z \<le> c \<and> c < z + 10) decimal_zeros = z # zs"
    and d: "d = c - z"
    by (auto simp: Py_UNICODE_TODECIMAL_def split: list.splits)
  have "z \<in> set (filter (\<lambda>z. z \<le> c \<and> c < z + 10) decimal_zeros)"
    by (simp add: f)
  with d show ?thesis by auto
qed

lemma TODECIMAL_lt_10: "Py_UNICODE_TODECIMAL c = Some d \<Longrightarrow> d < 10"
  by (drule TODECIMAL_Some) auto

lemma ISDECIMAL_not_ISSPACE:
  assumes "Py_UNICODE_ISDECIMAL c"
  shows "\<not> Py_UNICODE_ISSPACE c"
proof (cases "c < 1632")
  case True
  with assms show ?thesis
    by (auto simp: ISDECIMAL_low Py_UNICODE_ISSPACE_def)
next
  case False
  from assms obtain z where z: "z \<in> set decimal_zeros" "z \<le> c" "c < z + 10"
    by (auto simp: Py_UNICODE_ISDECIMAL_def dest: TODECIMAL_Some)
  show ?thesis
  proof
    assume "Py_UNICODE_ISSPACE c"
    with False have "c = 5760 \<or> (8192 \<le> c \<and> c \<le> 8202) \<or> c = 8232 \<or> c = 8233 \<or> c = 8239
        \<or> c = 8287 \<or> c = 12288"
      by (auto simp: Py_UNICODE_ISSPACE_def)
    then have "7258 \<le> c \<and> c < 42528 \<or> 4250 \<le> c \<and> c < 6112"
      by auto
    with z show False
      by (auto simp: decimal_zeros_def)
  qed
qed


lemma transform_decimals:
  assumes "\<forall>c \<in> set g. Py_UNICODE_ISDECIMAL c"
  shows "transform_decimal_and_space g = map to_ascii_digit g"
  using assms
proof (induction g)
  case Nil
  then show ?case by simp
next
  case (Cons c g)
  then have dec: "Py_UNICODE_ISDECIMAL c" by simp
  then obtain d where d: "Py_UNICODE_TODECIMAL c = Some d"
    by (auto simp: Py_UNICODE_ISDECIMAL_def)
  have "c < 127 \<Longrightarrow> c = 48 + d"
    using d by (auto simp: TODECIMAL_low split: if_splits)
  moreover have "\<not> Py_UNICODE_ISSPACE c"
    using dec by (rule ISDECIMAL_not_ISSPACE)
  ultimately show ?case
    using Cons d by (simp add: to_ascii_digit_def)
qed

lemma ascii_digit_to_ascii_digit:
  "Py_UNICODE_ISDECIMAL c \<Longrightarrow> ascii_digit (to_ascii_digit c)"
proof -
  assume "Py_UNICODE_ISDECIMAL c"
  then obtain d where d: "Py_UNICODE_TODECIMAL c = Some d"
    by (auto simp: Py_UNICODE_ISDECIMAL_def)
  then have "d < 10" by (rule TODECIMAL_lt_10)
  with d show ?thesis by (simp add: to_ascii_digit_def ascii_digit_def)
qed

lemma scan_digits_all:
  assumes "\<forall>c \<in> set ds. ascii_digit c" and "prev \<noteq> 95"
  shows "scan_digits prev acc n ds
         = Some (foldl (\<lambda>a c. 10 * a + int (c - 48)) acc ds, n + length ds, [])"
  using assms
proof (induction ds arbitrary: prev acc n)
  case Nil
  then show ?case by simp
next
  case (Cons c ds)
  then have "ascii_digit c" by simp
  then have "c \<noteq> 95" by (simp add: ascii_digit_def)
  with Cons show ?case by simp
qed

lemma foldl_to_ascii_digit:
  "foldl (\<lambda>a c. 10 * a + int (c - 48)) acc (map to_ascii_digit g)
   = foldl (\<lambda>a c. 10 * a + int (the (Py_UNICODE_TODECIMAL c))) acc g"
  by (induction g arbitrary: acc) (simp_all add: to_ascii_digit_def)

lemma py_int_run:
  assumes ne: "g \<noteq> []" and dec: "\<forall>c \<in> set g. Py_UNICODE_ISDECIMAL c"
  shows "py_int g =
           (if int_max_str_digits < length g then Inl (ValueError (Exceeds_limit (length g)))
            else Inr (digits_value g))"
proof -
  let ?b = "map to_ascii_digit g"
  have all: "\<forall>c \<in> set ?b. ascii_digit c"
    using dec by (auto intro: ascii_digit_to_ascii_digit)
  from ne obtain c cs where b: "?b = c # cs"
    by (cases g) auto
  with all have c: "ascii_digit c"
    by (metis list.set_intros(1))
  then have nosp: "\<not> Py_ISSPACE c" and nosign: "c \<noteq> 43" "c \<noteq> 45"
    by (auto simp: ascii_digit_def Py_ISSPACE_def)
  have sign: "read_sign (dropWhile Py_ISSPACE ?b) = (1, ?b)"
    using nosp nosign by (simp add: b read_sign_def)
  have scan: "scan_digits 0 0 0 ?b = Some (digits_value g, length g, [])"
    using scan_digits_all [OF all, of 0 0 0] by (simp add: foldl_to_ascii_digit digits_value_def)
  show ?thesis
    unfolding py_int_def transform_decimals [OF dec] sign
    using c scan by (simp add: b)
qed

lemma py_int_digits:
  assumes "g \<noteq> []" and "\<forall>c \<in> set g. Py_UNICODE_ISDECIMAL c" and "length g \<le> 4300"
  shows "py_int g = Inr (digits_value g)"
  using assms(3) by (simp add: py_int_run [OF assms(1,2)] int_max_str_digits_def)

lemma py_int_long_run:
  assumes "g \<noteq> []" and "\<forall>c \<in> set g. Py_UNICODE_ISDECIMAL c" and "4300 < length g"
  shows "py_int g = Inl (ValueError (Exceeds_limit (length g)))"
  using assms(3) by (simp add: py_int_run [OF assms(1,2)] int_max_str_digits_def)

lemma py_int_run_value:
  assumes "g \<noteq> []" and "\<forall>c \<in> set g. Py_UNICODE_ISDECIMAL c" and "py_int g = Inr n"
  shows "n = digits_value g \<and> length g \<le> 4300"
  using assms(3)
  by (simp add: py_int_run [OF assms(1,2)] int_max_str_digits_def split: if_splits)

lemma foldl_digits_nonneg:
  "0 \<le> acc \<Longrightarrow> 0 \<le> foldl (\<lambda>a c. 10 * a + int (the (Py_UNICODE_TODECIMAL c))) acc g"
  by (induction g arbitrary: acc) simp_all

lemma digits_value_nonneg: "0 \<le> digits_value g"
  by (simp add: digits_value_def foldl_digits_nonneg)

lemma re_search_digits_None:
  "re_search_digits s = None \<longleftrightarrow> (\<forall>c \<in> set s. \<not> Py_UNICODE_ISDECIMAL c)"
proof -
  have "re_search_digits s = None \<longleftrightarrow> dropWhile (\<lambda>c. \<not> Py_UNICODE_ISDECIMAL c) s = []"
    unfolding re_search_digits_def
    by (auto simp del: dropWhile_eq_Nil_conv split: list.splits)
  then show ?thesis by simp
qed

lemma re_search_digits_Some:
  assumes "re_search_digits s = Some g"
  shows "g \<noteq> [] \<and> (\<forall>c \<in> set g. Py_UNICODE_ISDECIMAL c) \<and>
         (\<exists>before after. s = before @ g @ after \<and> (\<forall>c \<in> set before. \<not> Py_UNICODE_ISDECIMAL c) \<and>
            (after = [] \<or> \<not> Py_UNICODE_ISDECIMAL (hd after)))"
proof -
  let ?t = "dropWhile (\<lambda>c. \<not> Py_UNICODE_ISDECIMAL c) s"
  from assms have "?t \<noteq> [] \<and> g = takeWhile Py_UNICODE_ISDECIMAL ?t"
    by (cases ?t) (auto simp: re_search_digits_def)
  then have t: "?t \<noteq> []" and g: "g = takeWhile Py_UNICODE_ISDECIMAL ?t"
    by blast+
  from t have "Py_UNICODE_ISDECIMAL (hd ?t)"
    using hd_dropWhile [of "\<lambda>c. \<not> Py_UNICODE_ISDECIMAL c" s] by simp
  with t have "g \<noteq> []"
    by (cases ?t) (auto simp: g)
  moreover have "\<forall>c \<in> set g. Py_UNICODE_ISDECIMAL c"
    by (auto simp: g dest: set_takeWhileD)
  moreover have "s = takeWhile (\<lambda>c. \<not> Py_UNICODE_ISDECIMAL c) s @ g
      @ dropWhile Py_UNICODE_ISDECIMAL ?t"
    by (simp add: g)
  moreover have "\<forall>c \<in> set (takeWhile (\<lambda>c. \<not> Py_UNICODE_ISDECIMAL c) s). \<not> Py_UNICODE_ISDECIMAL c"
    by (auto dest: set_takeWhileD)
  moreover have "dropWhile Py_UNICODE_ISDECIMAL ?t = []
      \<or> \<not> Py_UNICODE_ISDECIMAL (hd (dropWhile Py_UNICODE_ISDECIMAL ?t))"
    using hd_dropWhile [of Py_UNICODE_ISDECIMAL ?t] by blast
  ultimately show ?thesis by blast
qed

subsection \<open>True division below \<open>10 ^ 16\<close>\<close>


declare scale_up.simps [simp del] scale_down.simps [simp del] digits_of_nat.simps [simp del]

lemma scale_up_bound:
  "0 < n \<Longrightarrow> 0 < d \<Longrightarrow> 2 ^ 52 * d \<le> n * 2 ^ scale_up n d"
proof (induction n d rule: scale_up.induct)
  case (1 n d)
  show ?case
  proof (cases "2 ^ 52 * d \<le> n")
    case True
    then show ?thesis by (simp add: scale_up.simps)
  next
    case False
    with 1 have "2 ^ 52 * d \<le> (2 * n) * 2 ^ scale_up (2 * n) d"
      by simp
    with False 1 show ?thesis
      by (subst scale_up.simps) (simp add: mult_ac)
  qed
qed

lemma round_half_even_bounds:
  assumes "0 < d"
  shows "n div d \<le> round_half_even n d" and "2 * d * round_half_even n d \<le> 2 * n + d"
proof -
  show "n div d \<le> round_half_even n d"
    by (simp add: round_half_even_def Let_def)
  have n: "n = d * (n div d) + n mod d"
    by simp
  show "2 * d * round_half_even n d \<le> 2 * n + d"
  proof (cases "2 * (n mod d) < d \<or> (2 * (n mod d) = d \<and> even (n div d))")
    case True
    then have "round_half_even n d = n div d"
      by (simp add: round_half_even_def Let_def)
    moreover have "d * (n div d) \<le> n"
      by simp
    then have "2 * (d * (n div d)) \<le> 2 * n + d"
      by linarith
    ultimately show ?thesis
      by (simp only: mult.assoc)
  next
    case False
    then have r: "round_half_even n d = n div d + 1" and h: "d \<le> 2 * (n mod d)"
      by (auto simp: round_half_even_def Let_def)
    have "2 * d * (n div d + 1) = 2 * (d * (n div d)) + 2 * d"
      by (simp add: algebra_simps)
    also have "\<dots> = 2 * (n - n mod d) + 2 * d"
      by (simp add: minus_mod_eq_mult_div [symmetric])
    also have "\<dots> \<le> 2 * n + d"
      using h mod_less_eq_dividend [of n d] by linarith
    finally show ?thesis by (simp add: r)
  qed
qed

lemma truediv_trunc_small:
  assumes "a < 2 ^ 44 * 1000"
  shows "truediv_trunc a 1000 = Inr (a div 1000)"
proof (cases "a = 0")
  case True
  then show ?thesis by (simp add: truediv_trunc_def)
next
  case False
  define s where "s = min (scale_up a 1000) 1074"
  define P :: nat where "P = 2 ^ s"
  define m where "m = round_half_even (a * P) 1000"
  define k where "k = a div 1000"
  from assms have lt: "a < 2 ^ 52 * 1000" by simp
  have res: "truediv_trunc a 1000 = Inr (m div P)"
    using False lt by (simp add: truediv_trunc_def Let_def s_def P_def m_def)
  have big: "2 ^ 52 * 1000 \<le> a * P"
  proof (cases "scale_up a 1000 \<le> 1074")
    case True
    then have "s = scale_up a 1000" by (simp add: s_def)
    with scale_up_bound [of a 1000] False show ?thesis by (simp add: P_def)
  next
    case False
    then have "s = 1074" by (simp add: s_def)
    then have "(2::nat) ^ 52 * 1000 \<le> P" by (simp add: P_def)
    also have "P \<le> a * P" using \<open>a \<noteq> 0\<close> by simp
    finally show ?thesis .
  qed
  have s9: "9 \<le> s"
  proof (rule ccontr)
    assume "\<not> 9 \<le> s"
    then have "s \<le> 8" by simp
    then have "(2::nat) ^ s \<le> 2 ^ 8" by (rule power_increasing) simp
    then have "a * P \<le> a * 2 ^ 8" by (simp only: P_def mult_le_mono2)
    also have "\<dots> < (2 ^ 44 * 1000) * 2 ^ 8" using assms by simp
    finally show False using big by simp
  qed
  have P512: "512 \<le> P"
  proof -
    from s9 have "(2::nat) ^ 9 \<le> 2 ^ s" by (rule power_increasing) simp
    then show ?thesis by (simp add: P_def)
  qed
  have a: "a = 1000 * k + a mod 1000"
    by (simp add: k_def)
  have r: "a mod 1000 \<le> 999" 
    using mod_less_divisor [of 1000 a] by simp
  have lower: "k * P \<le> m"
  proof -
    have "1000 * (k * P) \<le> a * P"
      using a by (metis le_add1 mult.assoc mult_le_mono1)
    then have "k * P \<le> (a * P) div 1000"
      by (simp add: less_eq_div_iff_mult_less_eq mult.commute)
    also have "\<dots> \<le> m"
      unfolding m_def by (rule round_half_even_bounds) simp
    finally show ?thesis .
  qed
  have upper: "m < Suc k * P"
  proof -
    have "2 * 1000 * m \<le> 2 * (a * P) + 1000"
      unfolding m_def by (rule round_half_even_bounds) simp
    moreover have "a * P \<le> (1000 * k + 999) * P"
      using a r by (metis add_le_cancel_left mult_le_mono1)
    ultimately have "2000 * m \<le> 2000 * (k * P) + 1998 * P + 1000"
      by (simp add: algebra_simps)
    also have "\<dots> < 2000 * (k * P) + 2000 * P"
      using P512 by simp
    finally show ?thesis by simp
  qed
  have "m div P = k"
    using lower upper by (intro div_nat_eqI) (simp_all add: mult.commute)
  then show ?thesis
    by (simp add: res k_def)
qed

lemma int_of_truediv_small:
  assumes "0 \<le> n" and "n < 10 ^ 16"
  shows "int_of_truediv n 1000 = Inr (n div 1000)"
proof -
  have "nat n < 2 ^ 44 * 1000"
    using assms by simp
  then have "truediv_trunc (nat n) 1000 = Inr (nat n div 1000)"
    by (rule truediv_trunc_small)
  moreover have "sgn n * int (nat n div 1000) = n div 1000"
    using assms(1) by (cases "n = 0") (simp_all add: zdiv_int)
  ultimately show ?thesis
    using assms(1) by (simp add: int_of_truediv_def)
qed

subsection \<open>\<open>strip\<close> and \<open>split\<close>\<close>


declare py_split.simps [simp del]

lemma strip_decomposition:
  "\<exists>l r. s = l @ strip s @ r \<and> (\<forall>c \<in> set l. Py_UNICODE_ISSPACE c) \<and>
      (\<forall>c \<in> set r. Py_UNICODE_ISSPACE c) \<and>
      (strip s = [] \<or> \<not> Py_UNICODE_ISSPACE (hd (strip s)) \<and> \<not> Py_UNICODE_ISSPACE (last (strip s)))"
proof -
  let ?P = Py_UNICODE_ISSPACE
  let ?t = "dropWhile ?P s"
  let ?u = "dropWhile ?P (rev ?t)"
  have strip: "strip s = rev ?u"
    by (simp add: strip_def)
  have "?t = rev (takeWhile ?P (rev ?t) @ ?u)"
    by (simp only: takeWhile_dropWhile_id rev_rev_ident)
  then have t: "?t = strip s @ rev (takeWhile ?P (rev ?t))"
    by (simp only: rev_append strip)
  have "s = takeWhile ?P s @ ?t"
    by simp
  with t have s: "s = takeWhile ?P s @ strip s @ rev (takeWhile ?P (rev ?t))"
    by simp
  have l: "\<forall>c \<in> set (takeWhile ?P s). ?P c"
    by (auto dest: set_takeWhileD)
  have r: "\<forall>c \<in> set (rev (takeWhile ?P (rev ?t))). ?P c"
    by (auto dest: set_takeWhileD)
  have ends: "\<not> ?P (hd (strip s)) \<and> \<not> ?P (last (strip s))" if ne: "strip s \<noteq> []"
  proof -
    from ne have u: "?u \<noteq> []" by (simp add: strip)
    then have "\<not> ?P (hd ?u)" by (rule hd_dropWhile)
    then have last: "\<not> ?P (last (strip s))"
      using u by (simp add: strip last_rev)
    from ne t have tne: "?t \<noteq> []" by (metis append_is_Nil_conv)
    then have "\<not> ?P (hd ?t)" by (rule hd_dropWhile)
    moreover have "hd ?t = hd (strip s)"
      using ne by (subst t) simp
    ultimately show ?thesis using last by simp
  qed
  from s l r ends show ?thesis by blast
qed

lemma py_split_first:
  "py_getitem (py_split s) 0 =
     (if dropWhile Py_UNICODE_ISSPACE s = [] then Inl IndexError
      else Inr (takeWhile (\<lambda>c. \<not> Py_UNICODE_ISSPACE c) (dropWhile Py_UNICODE_ISSPACE s)))"
  by (subst py_split.simps) (simp add: py_getitem_def Let_def del: dropWhile_eq_Nil_conv)

lemma py_split_first_token:
  assumes "py_getitem (py_split s) 0 = Inr token"
  shows "token \<noteq> [] \<and> (\<forall>c \<in> set token. \<not> Py_UNICODE_ISSPACE c) \<and>
         (\<exists>l r. s = l @ token @ r \<and> (\<forall>c \<in> set l. Py_UNICODE_ISSPACE c) \<and>
            (r = [] \<or> Py_UNICODE_ISSPACE (hd r)))"
proof -
  let ?P = Py_UNICODE_ISSPACE
  let ?t = "dropWhile ?P s"
  from assms have t: "?t \<noteq> []" and tok: "token = takeWhile (\<lambda>c. \<not> ?P c) ?t"
    by (auto simp: py_split_first simp del: dropWhile_eq_Nil_conv split: if_splits)
  from t have "\<not> ?P (hd ?t)" by (rule hd_dropWhile)
  with t have "token \<noteq> []"
    by (cases ?t) (auto simp: tok)
  moreover have "\<forall>c \<in> set token. \<not> ?P c"
    by (auto simp: tok dest: set_takeWhileD)
  moreover have "s = takeWhile ?P s @ token @ dropWhile (\<lambda>c. \<not> ?P c) ?t"
    by (simp add: tok)
  moreover have "\<forall>c \<in> set (takeWhile ?P s). ?P c"
    by (auto dest: set_takeWhileD)
  moreover have "dropWhile (\<lambda>c. \<not> ?P c) ?t = [] \<or> ?P (hd (dropWhile (\<lambda>c. \<not> ?P c) ?t))"
    using hd_dropWhile [of "\<lambda>c. \<not> ?P c" ?t] by blast
  ultimately show ?thesis by blast
qed

subsection \<open>The column loop of format 2 when every cell is well formed\<close>


lemma search_digits_int:
  assumes "re_search_digits s = Some g" and "length g \<le> 4300"
  shows "bindE (group (re_search_digits s)) py_int = Inr (digits_value g)"
proof -
  from re_search_digits_Some [OF assms(1)]
  have "g \<noteq> []" and "\<forall>c \<in> set g. Py_UNICODE_ISDECIMAL c"
    by blast+
  then have "py_int g = Inr (digits_value g)"
    using assms(2) by (rule py_int_digits)
  then show ?thesis
    by (simp add: assms group_def)
qed

lemma wrtite_tariff_TV_column_ok:
  assumes "i < length heads" and "re_search_digits (strip (heads ! i)) = Some g"
    and "i < length columns" and "py_int (strip (columns ! i)) = Inr p"
    and "length g \<le> 4300"
  shows "wrtite_tariff_TV_column heads columns channel is_tariff tariff i s =
     Inr (s\<lparr>names := names s @ [tariff @ lit_connector @ str_of_int (digits_value g)
                                   @ (if is_tariff then lit_TB_ch else lit_TB)],
             channels := channels s @ [PyInt channel],
             speeds := speeds s @ [digits_value g],
             payments := payments s @ [p]\<rparr>)"
proof -
  from re_search_digits_Some [OF assms(2)]
  have "g \<noteq> []" and "\<forall>c \<in> set g. Py_UNICODE_ISDECIMAL c"
    by blast+
  then have "py_int g = Inr (digits_value g)"
    using assms(5) by (rule py_int_digits)
  with assms show ?thesis
    by (simp add: wrtite_tariff_TV_column_def py_getitem_def group_def Let_def)
qed

lemma wrtite_tariff_TV_loop_ok:
  assumes "\<forall>i \<in> set idxs. i < length heads \<and> i < length columns \<and>
             re_search_digits (strip (heads ! i)) = Some (run i) \<and>
             py_int (strip (columns ! i)) = Inr (pay i) \<and> length (run i) \<le> 4300"
  shows "for_each (wrtite_tariff_TV_column heads columns channel is_tariff tariff) idxs s =
     Inr (s\<lparr>names := names s @ map (\<lambda>i. tariff @ lit_connector @ str_of_int (digits_value (run i))
                                          @ (if is_tariff then lit_TB_ch else lit_TB)) idxs,
             channels := channels s @ map (\<lambda>i. PyInt channel) idxs,
             speeds := speeds s @ map (\<lambda>i. digits_value (run i)) idxs,
             payments := payments s @ map pay idxs\<rparr>)"
  using assms
proof (induction idxs arbitrary: s)
  case Nil
  then show ?case by simp
next
  case (Cons i idxs)
  then have i: "i < length heads" "re_search_digits (strip (heads ! i)) = Some (run i)"
      "i < length columns" "py_int (strip (columns ! i)) = Inr (pay i)"
      "length (run i) \<le> 4300"
    by simp_all
  from Cons.prems have rest: "\<forall>i \<in> set idxs. i < length heads \<and> i < length columns \<and>
             re_search_digits (strip (heads ! i)) = Some (run i) \<and>
             py_int (strip (columns ! i)) = Inr (pay i) \<and> length (run i) \<le> 4300"
    by simp
  show ?case
    by (simp add: wrtite_tariff_TV_column_ok [OF i] Cons.IH [OF rest])
qed




lemma join_space:
  "join sep (h # hs) = h @ concat (map (\<lambda>x. sep @ x) hs)"
  by (induction hs arbitrary: h) simp_all

lemma sublist_across_separator:
  assumes "sep \<notin> set lit"
  shows "sublist lit (a @ sep # b) \<longleftrightarrow> sublist lit a \<or> sublist lit b"
proof
  assume "sublist lit (a @ sep # b)"
  then consider "sublist lit a" | "sublist lit (sep # b)"
    | xs1 xs2 where "lit = xs1 @ xs2" "suffix xs1 a" "prefix xs2 (sep # b)"
    by (auto simp: sublist_append)
  then show "sublist lit a \<or> sublist lit b"
  proof cases
    case 1
    then show ?thesis by simp
  next
    case 2
    then have "prefix lit (sep # b) \<or> sublist lit b"
      by (simp add: sublist_Cons_right)
    moreover have "prefix lit (sep # b) \<Longrightarrow> lit = []"
      using assms by (cases lit) auto
    ultimately show ?thesis
      by auto
  next
    case 3
    from 3(1) assms have "sep \<notin> set xs2"
      by simp
    with 3(3) have "xs2 = []"
      by (cases xs2) auto
    with 3(1,2) show ?thesis
      by (auto intro: suffix_imp_sublist)
  qed
next
  assume "sublist lit a \<or> sublist lit b"
  then show "sublist lit (a @ sep # b)"
  proof
    assume "sublist lit a"
    then show ?thesis
      by (simp add: sublist_append)
  next
    assume "sublist lit b"
    then have "sublist lit (sep # b)"
      by (simp add: sublist_Cons_right)
    then show ?thesis
      by (simp add: sublist_append)
  qed
qed

lemma sublist_separated_cells:
  assumes "sep \<notin> set lit" and "lit \<noteq> []"
  shows "sublist lit (case hs of [] \<Rightarrow> [] | h # rest \<Rightarrow> h @ concat (map (\<lambda>x. sep # x) rest))
    \<longleftrightarrow> (\<exists>h \<in> set hs. sublist lit h)"
proof (cases hs)
  case Nil
  with assms(2) show ?thesis
    by simp
next
  case (Cons h rest)
  have "sublist lit (h @ concat (map (\<lambda>x. sep # x) rest)) \<longleftrightarrow> (\<exists>x \<in> set (h # rest). sublist lit x)"
  proof (induction rest arbitrary: h)
    case Nil
    then show ?case by simp
  next
    case (Cons y ys)
    have "sublist lit (h @ concat (map (\<lambda>x. sep # x) (y # ys)))
        \<longleftrightarrow> sublist lit (h @ sep # (y @ concat (map (\<lambda>x. sep # x) ys)))"
      by simp
    also have "\<dots> \<longleftrightarrow> sublist lit h \<or> sublist lit (y @ concat (map (\<lambda>x. sep # x) ys))"
      by (rule sublist_across_separator [OF assms(1)])
    also have "\<dots> \<longleftrightarrow> sublist lit h \<or> (\<exists>x \<in> set (y # ys). sublist lit x)"
      by (simp only: Cons.IH)
    finally show ?case
      by simp
  qed
  with Cons show ?thesis
    by simp
qed

subsection \<open>What a run without exception appends\<close>


lemma wrtite_tariff_TV_column_shape:
  assumes "wrtite_tariff_TV_column heads columns channel is_tariff tariff i s = Inr s'"
  shows "\<exists>v p. s' = s\<lparr>names := names s @ [tariff @ lit_connector @ str_of_int v
                                           @ (if is_tariff then lit_TB_ch else lit_TB)],
                       channels := channels s @ [PyInt channel],
                       speeds := speeds s @ [v],
                       payments := payments s @ [p]\<rparr>"
  using assms
  by (clarsimp simp: wrtite_tariff_TV_column_def Let_def bindE_eq_Inr) blast

lemma wrtite_tariff_TV_loop_shape:
  assumes "for_each (wrtite_tariff_TV_column heads columns channel is_tariff tariff) idxs s = Inr s'"
  shows "\<exists>vs ps. length vs = length idxs \<and> length ps = length idxs \<and>
           s' = s\<lparr>names := names s @ map (\<lambda>v. tariff @ lit_connector @ str_of_int v
                                              @ (if is_tariff then lit_TB_ch else lit_TB)) vs,
                  channels := channels s @ replicate (length idxs) (PyInt channel),
                  speeds := speeds s @ vs,
                  payments := payments s @ ps\<rparr>"
  using assms
proof (induction idxs arbitrary: s)
  case Nil
  then show ?case by simp
next
  case (Cons i idxs)
  from Cons.prems obtain s1
    where s1: "wrtite_tariff_TV_column heads columns channel is_tariff tariff i s = Inr s1"
      and rest: "for_each (wrtite_tariff_TV_column heads columns channel is_tariff tariff) idxs s1
                 = Inr s'"
    by (auto simp: bindE_eq_Inr)
  from wrtite_tariff_TV_column_shape [OF s1] obtain v p
    where s1_eq: "s1 = s\<lparr>names := names s @ [tariff @ lit_connector @ str_of_int v
                                           @ (if is_tariff then lit_TB_ch else lit_TB)],
                       channels := channels s @ [PyInt channel],
                       speeds := speeds s @ [v],
                       payments := payments s @ [p]\<rparr>"
    by blast
  from Cons.IH [OF rest] obtain vs ps
    where len: "length vs = length idxs" "length ps = length idxs"
      and s'_eq: "s' = s1\<lparr>names := names s1 @ map (\<lambda>v. tariff @ lit_connector @ str_of_int v
                                              @ (if is_tariff then lit_TB_ch else lit_TB)) vs,
                  channels := channels s1 @ replicate (length idxs) (PyInt channel),
                  speeds := speeds s1 @ vs,
                  payments := payments s1 @ ps\<rparr>"
    by blast
  have "length (v # vs) = length (i # idxs)" "length (p # ps) = length (i # idxs)"
    using len by simp_all
  moreover have "s' = s\<lparr>names := names s @ map (\<lambda>v. tariff @ lit_connector @ str_of_int v
                                              @ (if is_tariff then lit_TB_ch else lit_TB)) (v # vs),
                  channels := channels s @ replicate (length (i # idxs)) (PyInt channel),
                  speeds := speeds s @ (v # vs),
                  payments := payments s @ (p # ps)\<rparr>"
    by (simp add: s'_eq s1_eq replicate_append_same [symmetric])
  ultimately show ?case by blast
qed

lemma wrtite_tariff_TV_shape:
  assumes "wrtite_tariff_TV heads columns channel is_tariff tariff s = Inr s'"
  shows "\<exists>vs ps. length vs = length heads - 1 \<and> length ps = length heads - 1 \<and>
           s' = s\<lparr>names := names s @ map (\<lambda>v. tariff @ lit_connector @ str_of_int v
                                              @ (if is_tariff then lit_TB_ch else lit_TB)) vs,
                  channels := channels s @ replicate (length heads - 1) (PyInt channel),
                  speeds := speeds s @ vs,
                  payments := payments s @ ps\<rparr>"
  using wrtite_tariff_TV_loop_shape [OF assms [unfolded wrtite_tariff_TV_def]] by simp

lemma process_tariff_row_shape:
  assumes "process_tariff_row r s = Inr s'"
  shows "\<exists>n v p. s' = s\<lparr>names := names s @ [n], channels := channels s @ [PyStr lit_null],
                         speeds := speeds s @ [v], payments := payments s @ [p]\<rparr>"
  using assms by (auto simp: process_tariff_row_def Let_def bindE_eq_Inr)

lemma process_tariff_rows_shape:
  assumes "for_each process_tariff_row rs s = Inr s'"
  shows "\<exists>ns vs ps. length ns = length rs \<and> length vs = length rs \<and> length ps = length rs \<and>
           s' = s\<lparr>names := names s @ ns,
                  channels := channels s @ replicate (length rs) (PyStr lit_null),
                  speeds := speeds s @ vs,
                  payments := payments s @ ps\<rparr>"
  using assms
proof (induction rs arbitrary: s)
  case Nil
  then show ?case by simp
next
  case (Cons r rs)
  from Cons.prems obtain s1
    where s1: "process_tariff_row r s = Inr s1" and rest: "for_each process_tariff_row rs s1 = Inr s'"
    by (auto simp: bindE_eq_Inr)
  from process_tariff_row_shape [OF s1] obtain n v p
    where s1_eq: "s1 = s\<lparr>names := names s @ [n], channels := channels s @ [PyStr lit_null],
                         speeds := speeds s @ [v], payments := payments s @ [p]\<rparr>"
    by blast
  from Cons.IH [OF rest] obtain ns vs ps
    where len: "length ns = length rs" "length vs = length rs" "length ps = length rs"
      and s'_eq: "s' = s1\<lparr>names := names s1 @ ns,
                  channels := channels s1 @ replicate (length rs) (PyStr lit_null),
                  speeds := speeds s1 @ vs,
                  payments := payments s1 @ ps\<rparr>"
    by blast
  have "length (n # ns) = length (r # rs)" "length (v # vs) = length (r # rs)"
      "length (p # ps) = length (r # rs)"
    using len by simp_all
  moreover have "s' = s\<lparr>names := names s @ (n # ns),
                  channels := channels s @ replicate (length (r # rs)) (PyStr lit_null),
                  speeds := speeds s @ (v # vs),
                  payments := payments s @ (p # ps)\<rparr>"
    by (simp add: s'_eq s1_eq replicate_append_same [symmetric])
  ultimately show ?case by blast
qed

subsection \<open>The bundle pattern\<close>


lemma match_parenthetical_Some:
  assumes "match_parenthetical s = Some num"
  shows "num \<noteq> [] \<and> (\<forall>c \<in> set num. Py_UNICODE_ISDECIMAL c) \<and>
         (\<exists>ws rest. s = ws @ 40 # num @ rest \<and> (\<forall>c \<in> set ws. Py_UNICODE_ISSPACE c) \<and>
            41 \<in> set rest \<and> \<not> Py_UNICODE_ISDECIMAL (hd rest))"
proof -
  let ?t = "dropWhile Py_UNICODE_ISSPACE s"
  from assms obtain cs where t: "?t = 40 # cs"
    and num: "num = takeWhile Py_UNICODE_ISDECIMAL cs" and ne: "num \<noteq> []"
    and close: "41 \<in> set (dropWhile Py_UNICODE_ISDECIMAL cs)"
    by (auto simp: match_parenthetical_def Let_def split: list.splits if_splits)
  let ?rest = "dropWhile Py_UNICODE_ISDECIMAL cs"
  have "s = takeWhile Py_UNICODE_ISSPACE s @ ?t"
    by simp
  then have s: "s = takeWhile Py_UNICODE_ISSPACE s @ 40 # num @ ?rest"
    by (simp add: t num)
  have ws: "\<forall>c \<in> set (takeWhile Py_UNICODE_ISSPACE s). Py_UNICODE_ISSPACE c"
    by (auto dest: set_takeWhileD)
  have d: "\<forall>c \<in> set num. Py_UNICODE_ISDECIMAL c"
    by (auto simp: num dest: set_takeWhileD)
  from close have "?rest \<noteq> []" by (metis empty_iff empty_set)
  then have "\<not> Py_UNICODE_ISDECIMAL (hd ?rest)"
    by (rule hd_dropWhile)
  with s ws d ne close show ?thesis by blast
qed

lemma match_parenthetical_append:
  assumes "match_parenthetical s = Some num"
  shows "match_parenthetical (s @ x) = Some num"
proof -
  from match_parenthetical_Some [OF assms] obtain ws rest
    where s: "s = ws @ 40 # num @ rest" and ws: "\<forall>c \<in> set ws. Py_UNICODE_ISSPACE c"
      and ne: "num \<noteq> []" and d: "\<forall>c \<in> set num. Py_UNICODE_ISDECIMAL c"
      and close: "41 \<in> set rest" and stop: "\<not> Py_UNICODE_ISDECIMAL (hd rest)"
    by blast
  from close obtain r rs where rest: "rest = r # rs"
    by (cases rest) auto
  with stop have r: "\<not> Py_UNICODE_ISDECIMAL r" by simp
  have nosp: "\<not> Py_UNICODE_ISSPACE 40"
    by (simp add: Py_UNICODE_ISSPACE_def)
  have drop: "dropWhile Py_UNICODE_ISSPACE (s @ x) = 40 # num @ rest @ x"
    using ws nosp by (simp add: s)
  have take: "takeWhile Py_UNICODE_ISDECIMAL (num @ rest @ x) = num"
    using d r by (simp add: rest)
  have drop2: "dropWhile Py_UNICODE_ISDECIMAL (num @ rest @ x) = rest @ x"
    using d r by (simp add: rest)
  show ?thesis
    using ne close by (simp add: match_parenthetical_def drop take drop2)
qed

lemma re_search_label_from_Some:
  assumes "re_search_label_from acc s = Some (name, num)"
  shows "\<exists>pre rest. s = pre @ rest \<and> name = acc @ pre \<and> match_parenthetical rest = Some num \<and>
           (\<forall>p q. pre = p @ q \<and> q \<noteq> [] \<longrightarrow> match_parenthetical (q @ rest) = None)"
  using assms
proof (induction s arbitrary: acc)
  case Nil
  then have "match_parenthetical [] = Some num" and "name = acc"
    by (auto split: option.splits)
  then show ?case by simp
next
  case (Cons c cs)
  show ?case
  proof (cases "match_parenthetical (c # cs)")
    case (Some n)
    with Cons.prems have "name = acc" "n = num" by simp_all
    with Some have "c # cs = [] @ (c # cs) \<and> name = acc @ [] \<and>
        match_parenthetical (c # cs) = Some num \<and>
        (\<forall>p q. [] = p @ q \<and> q \<noteq> [] \<longrightarrow> match_parenthetical (q @ c # cs) = None)"
      by simp
    then show ?thesis by blast
  next
    case None
    with Cons.prems have "re_search_label_from (acc @ [c]) cs = Some (name, num)"
      by simp
    from Cons.IH [OF this] obtain pre rest
      where cs: "cs = pre @ rest" and name: "name = (acc @ [c]) @ pre"
        and m: "match_parenthetical rest = Some num"
        and least: "\<forall>p q. pre = p @ q \<and> q \<noteq> [] \<longrightarrow> match_parenthetical (q @ rest) = None"
      by blast
    have "\<forall>p q. c # pre = p @ q \<and> q \<noteq> [] \<longrightarrow> match_parenthetical (q @ rest) = None"
    proof (intro allI impI)
      fix p q
      assume pq: "c # pre = p @ q \<and> q \<noteq> []"
      show "match_parenthetical (q @ rest) = None"
      proof (cases p)
        case Nil
        with pq have "q @ rest = c # cs" by (simp add: cs)
        with None show ?thesis by simp
      next
        case (Cons c' p')
        with pq have "pre = p' @ q \<and> q \<noteq> []" by simp
        with least show ?thesis by blast
      qed
    qed
    with cs name m have "c # cs = (c # pre) @ rest \<and> name = acc @ (c # pre) \<and>
        match_parenthetical rest = Some num \<and>
        (\<forall>p q. c # pre = p @ q \<and> q \<noteq> [] \<longrightarrow> match_parenthetical (q @ rest) = None)"
      by simp
    then show ?thesis by blast
  qed
qed

lemma re_search_label_from_None:
  "re_search_label_from acc s = None \<longleftrightarrow> (\<forall>p q. s = p @ q \<longrightarrow> match_parenthetical q = None)"
proof (induction s arbitrary: acc)
  case Nil
  then show ?case by (auto split: option.splits)
next
  case (Cons c cs)
  show ?case
  proof (cases "match_parenthetical (c # cs)")
    case (Some n)
    then have "re_search_label_from acc (c # cs) \<noteq> None" by simp
    moreover have "c # cs = [] @ (c # cs)" by simp
    ultimately show ?thesis using Some by (metis option.distinct(1))
  next
    case None
    then have "re_search_label_from acc (c # cs) = None \<longleftrightarrow>
        (\<forall>p q. cs = p @ q \<longrightarrow> match_parenthetical q = None)"
      by (simp add: Cons.IH)
    also have "\<dots> \<longleftrightarrow> (\<forall>p q. c # cs = p @ q \<longrightarrow> match_parenthetical q = None)"
      using None by (auto simp: Cons_eq_append_conv)
    finally show ?thesis .
  qed
qed

text \<open>The base name of a label has no parenthetical group of its own.\<close>

lemma base_name_not_a_label:
  assumes "re_search_label t = Some (name, num)"
  shows "re_search_label name = None" and "name \<noteq> t"
proof -
  from re_search_label_from_Some [OF assms [unfolded re_search_label_def]] obtain rest
    where t: "t = name @ rest" and m: "match_parenthetical rest = Some num"
      and least: "\<forall>p q. name = p @ q \<and> q \<noteq> [] \<longrightarrow> match_parenthetical (q @ rest) = None"
    by auto
  have "match_parenthetical q = None" if "name = p @ q" for p q
  proof (cases "q = []")
    case True
    then show ?thesis by (simp add: match_parenthetical_def)
  next
    case False
    with that least have none: "match_parenthetical (q @ rest) = None" by blast
    show ?thesis
    proof (cases "match_parenthetical q")
      case None
      then show ?thesis .
    next
      case (Some n)
      from match_parenthetical_append [OF this, of rest] none show ?thesis by simp
    qed
  qed
  then show "re_search_label name = None"
    by (simp add: re_search_label_def re_search_label_from_None)
  from m have "rest \<noteq> []"
    by (auto simp: match_parenthetical_def)
  with t show "name \<noteq> t" by simp
qed

subsection \<open>Equal lengths\<close>

lemma equal_lengths_registry [simp]:
  "equal_lengths (s\<lparr>count_tariff_channel := m\<rparr>) = equal_lengths s"
  by (simp add: equal_lengths_def)

lemma process_tariff_row_lengths:
  "equal_lengths s \<Longrightarrow> process_tariff_row r s = Inr s' \<Longrightarrow> equal_lengths s'"
  by (drule process_tariff_row_shape) (auto simp: equal_lengths_def)

lemma wrtite_tariff_TV_column_lengths:
  "equal_lengths s \<Longrightarrow> wrtite_tariff_TV_column heads columns channel is_tariff tariff i s = Inr s'
   \<Longrightarrow> equal_lengths s'"
  by (drule wrtite_tariff_TV_column_shape) (auto simp: equal_lengths_def)

lemma wrtite_tariff_TV_lengths:
  "equal_lengths s \<Longrightarrow> wrtite_tariff_TV heads columns channel is_tariff tariff s = Inr s'
   \<Longrightarrow> equal_lengths s'"
  by (drule wrtite_tariff_TV_shape) (auto simp: equal_lengths_def)

lemma process_tariff_TV_row_lengths:
  "equal_lengths s \<Longrightarrow> process_tariff_TV_row heads r s = Inr s' \<Longrightarrow> equal_lengths s'"
  by (auto simp: process_tariff_TV_row_def Let_def bindE_eq_Inr
      split: option.splits dest: wrtite_tariff_TV_lengths [rotated])

lemma process_tariff_lengths:
  "equal_lengths s \<Longrightarrow> process_tariff rows s = Inr s' \<Longrightarrow> equal_lengths s'"
  unfolding process_tariff_def
  by (rule for_each_invariant [where P = equal_lengths and body = process_tariff_row])
     (auto intro: process_tariff_row_lengths)

lemma process_tariff_TV_lengths:
  "equal_lengths s \<Longrightarrow> process_tariff_TV rows heads s = Inr s' \<Longrightarrow> equal_lengths s'"
  unfolding process_tariff_TV_def
  by (rule for_each_invariant [where P = equal_lengths and body = "process_tariff_TV_row heads"])
     (auto intro: process_tariff_TV_row_lengths)

lemma process_table_lengths:
  "equal_lengths s \<Longrightarrow> process_table rows s = Inr s' \<Longrightarrow> equal_lengths s'"
  by (auto simp: process_table_def Let_def bindE_eq_Inr
      split: if_splits dest: process_tariff_lengths process_tariff_TV_lengths)

lemma tables_lengths:
  "equal_lengths s \<Longrightarrow> for_each process_table tables s = Inr s' \<Longrightarrow> equal_lengths s'"
  by (rule for_each_invariant [where P = equal_lengths and body = process_table])
     (auto intro: process_table_lengths)

lemma equal_lengths_init: "equal_lengths (DataRialcom_init d)"
  by (simp add: equal_lengths_def DataRialcom_init_def)

subsection \<open>The keys of the channel registry\<close>

lemma plain_keys_init: "plain_keys (DataRialcom_init d)"
  by (simp add: plain_keys_def DataRialcom_init_def)

lemma process_tariff_row_registry:
  "process_tariff_row r s = Inr s' \<Longrightarrow> count_tariff_channel s' = count_tariff_channel s"
  by (drule process_tariff_row_shape) auto

lemma wrtite_tariff_TV_registry:
  "wrtite_tariff_TV heads columns channel is_tariff tariff s = Inr s'
   \<Longrightarrow> count_tariff_channel s' = count_tariff_channel s"
  by (drule wrtite_tariff_TV_shape) auto

lemma process_tariff_TV_row_cases:
  assumes "process_tariff_TV_row heads r s = Inr s'"
  obtains (repeat) c0 channel where "py_getitem (tds r) 0 = Inr c0"
      and "count_tariff_channel s (strip c0) = Some channel"
      and "wrtite_tariff_TV heads (tds r) channel True (strip c0) s = Inr s'"
  | (first_seen) c0 name num where "py_getitem (tds r) 0 = Inr c0"
      and "count_tariff_channel s (strip c0) = None"
      and "re_search_label (strip c0) = Some (name, num)"
      and "wrtite_tariff_TV heads (tds r) (digits_value num) False (strip c0)
             (s\<lparr>count_tariff_channel := (count_tariff_channel s)(name \<mapsto> digits_value num)\<rparr>)
           = Inr s'"
proof -
  from assms obtain c0 where c0: "py_getitem (tds r) 0 = Inr c0"
    by (auto simp: process_tariff_TV_row_def Let_def bindE_eq_Inr)
  show thesis
  proof (cases "count_tariff_channel s (strip c0)")
    case (Some channel)
    with assms c0 have "wrtite_tariff_TV heads (tds r) channel True (strip c0) s = Inr s'"
      by (simp add: process_tariff_TV_row_def Let_def)
    with c0 Some show thesis by (rule repeat)
  next
    case None
    with assms c0 obtain name num n where lab: "re_search_label (strip c0) = Some (name, num)"
      and n: "py_int num = Inr n"
      and w: "wrtite_tariff_TV heads (tds r) n False (strip c0)
             (s\<lparr>count_tariff_channel := (count_tariff_channel s)(name \<mapsto> n)\<rparr>) = Inr s'"
      by (auto simp: process_tariff_TV_row_def Let_def bindE_eq_Inr groupdict_def
          split: option.splits)
    from lab obtain rest where "match_parenthetical rest = Some num"
      using re_search_label_from_Some [of "[]" "strip c0" name num]
      by (auto simp: re_search_label_def)
    then have "num \<noteq> []" and "\<forall>c \<in> set num. Py_UNICODE_ISDECIMAL c"
      by (auto dest: match_parenthetical_Some)
    then have "n = digits_value num"
      using n by (blast dest: py_int_run_value)
    with c0 None lab w show thesis by (auto intro: first_seen)
  qed
qed

lemma process_tariff_TV_row_plain_keys:
  assumes "plain_keys s" and "process_tariff_TV_row heads r s = Inr s'"
  shows "plain_keys s'"
  using assms(2)
proof (cases rule: process_tariff_TV_row_cases)
  case (repeat c0 channel)
  then have "count_tariff_channel s' = count_tariff_channel s"
    by (auto dest: wrtite_tariff_TV_registry)
  with assms(1) show ?thesis by (simp add: plain_keys_def)
next
  case (first_seen c0 name num)
  then have "count_tariff_channel s' = (count_tariff_channel s)(name \<mapsto> digits_value num)"
    by (auto dest: wrtite_tariff_TV_registry)
  moreover have "re_search_label name = None"
    using first_seen(3) by (rule base_name_not_a_label)
  ultimately show ?thesis
    using assms(1) by (auto simp: plain_keys_def)
qed

lemma process_tariff_row_plain_keys:
  "plain_keys s \<Longrightarrow> process_tariff_row r s = Inr s' \<Longrightarrow> plain_keys s'"
  by (drule process_tariff_row_registry) (simp add: plain_keys_def)

lemma process_tariff_plain_keys:
  "plain_keys s \<Longrightarrow> process_tariff rows s = Inr s' \<Longrightarrow> plain_keys s'"
  unfolding process_tariff_def
  by (rule for_each_invariant [where P = plain_keys and body = process_tariff_row])
     (auto intro: process_tariff_row_plain_keys)

lemma process_tariff_TV_plain_keys:
  "plain_keys s \<Longrightarrow> process_tariff_TV rows heads s = Inr s' \<Longrightarrow> plain_keys s'"
  unfolding process_tariff_TV_def
  by (rule for_each_invariant [where P = plain_keys and body = "process_tariff_TV_row heads"])
     (auto intro: process_tariff_TV_row_plain_keys)

lemma process_table_plain_keys:
  "plain_keys s \<Longrightarrow> process_table rows s = Inr s' \<Longrightarrow> plain_keys s'"
  by (auto simp: process_table_def Let_def bindE_eq_Inr
      split: if_splits dest: process_tariff_plain_keys process_tariff_TV_plain_keys)

lemma tables_plain_keys:
  "plain_keys s \<Longrightarrow> for_each process_table tables s = Inr s' \<Longrightarrow> plain_keys s'"
  by (rule for_each_invariant [where P = plain_keys and body = process_table])
     (auto intro: process_table_plain_keys)

lemma label_with_group_not_a_key:
  "plain_keys s \<Longrightarrow> re_search_label t = Some (name, num) \<Longrightarrow> count_tariff_channel s t = None"
  by (cases "count_tariff_channel s t") (auto simp: plain_keys_def dom_def)

subsection \<open>How an exception leaves the loops\<close>

lemma py_int_error:
  "py_int s = Inl e \<Longrightarrow>
   e = ValueError (Invalid_literal s) \<or> (\<exists>n. 4300 < n \<and> e = ValueError (Exceeds_limit n))"
  by (auto simp: py_int_def Let_def int_max_str_digits_def
      split: prod.splits list.splits if_splits option.splits)

lemma call_raises:
  assumes "data self = before @ t # after"
    and "for_each process_table before (DataRialcom_init (data self)) = Inr s"
    and "process_table t s = Inl e"
  shows "ParserRialcom_process_data self = Inl e"
  using for_each_raises [OF assms(2,3), of after]
  by (simp add: ParserRialcom_process_data_def DataRialcom_process_data_def run_tables_def
      assms(1))

lemma save_data_raises:
  "ParserRialcom_process_data self = Inl e \<Longrightarrow> save_data pd self name = Inl e"
  by (simp add: save_data_def)

lemma table_raises_format_1:
  assumes "sublist lit_tariff (join (ascii '' '') (ths r0))"
    and "for_each process_tariff_row rows_before s = Inr s1"
    and "process_tariff_row r s1 = Inl e"
  shows "process_table (r0 # rows_before @ r # rows_after) s = Inl e"
  using for_each_raises [OF assms(2,3), of rows_after] assms(1)
  by (simp add: process_table_def py_getitem_def re_search_literal_sublist process_tariff_def)

lemma table_raises_format_2:
  assumes "\<not> sublist lit_tariff (join (ascii '' '') (ths r0))"
    and "sublist lit_Internet (join (ascii '' '') (ths r0))"
    and "for_each (process_tariff_TV_row (ths r0)) rows_before s = Inr s1"
    and "process_tariff_TV_row (ths r0) r s1 = Inl e"
  shows "process_table (r0 # rows_before @ r # rows_after) s = Inl e"
  using for_each_raises [OF assms(3,4), of rows_after] assms(1,2)
  by (simp add: process_table_def py_getitem_def re_search_literal_sublist process_tariff_TV_def)

lemma row_without_speed_raises:
  assumes "tds r = c0 # c1 # c2 # c3 # others" and "re_search_digits (strip c3) = None"
  shows "process_tariff_row r s = Inl (AttributeError (ascii ''group''))"
  using assms by (simp add: process_tariff_row_def py_getitem_def group_def)

lemma row_without_payment_raises:
  assumes "tds r = c0 # c1 # c2 # c3 # others"
    and "re_search_digits (strip c3) = Some g" and "length g \<le> 4300"
    and "int_of_truediv (digits_value g) 1000 = Inr v"
    and "py_split (strip c1) = token # tokens" and "py_int token = Inl err"
  shows "process_tariff_row r s = Inl err"
proof -
  have "bindE (group (re_search_digits (strip c3))) py_int = Inr (digits_value g)"
    using assms(2,3) by (rule search_digits_int)
  then have "py_int g = Inr (digits_value g)"
    by (simp add: assms(2) group_def)
  with assms show ?thesis
    by (simp add: process_tariff_row_def py_getitem_def group_def)
qed

lemma row_without_group_raises:
  assumes "tds r = c0 # cells" and "count_tariff_channel s (strip c0) = None"
    and "re_search_label (strip c0) = None"
  shows "process_tariff_TV_row heads r s = Inl (AttributeError (ascii ''groupdict''))"
  using assms by (simp add: process_tariff_TV_row_def py_getitem_def groupdict_def)

lemma upt_split: "1 \<le> i \<Longrightarrow> i < n \<Longrightarrow> [1 ..< n] = [1 ..< i] @ i # [Suc i ..< n]"
  by (metis less_imp_le_nat upt_add_eq_append upt_conv_Cons le_add_diff_inverse)

lemma columns_before_ok:
  assumes "\<forall>j. 1 \<le> j \<and> j < i \<longrightarrow> j < length heads \<and> column_well_formed heads cols j"
  shows "\<exists>s1. for_each (wrtite_tariff_TV_column heads cols channel is_tariff tariff) [1 ..< i] s
           = Inr s1"
proof -
  have "\<forall>j \<in> set [1 ..< i]. j < length heads \<and> j < length cols \<and>
          re_search_digits (strip (heads ! j)) = Some (the (re_search_digits (strip (heads ! j)))) \<and>
          py_int (strip (cols ! j)) = Inr (projr (py_int (strip (cols ! j)))) \<and>
          length (the (re_search_digits (strip (heads ! j)))) \<le> 4300"
    using assms by (auto simp: column_well_formed_def)
  from wrtite_tariff_TV_loop_ok [OF this] show ?thesis
    by blast
qed

lemma column_without_speed_raises:
  assumes "i < length heads" and "re_search_digits (strip (heads ! i)) = None"
  shows "wrtite_tariff_TV_column heads cols channel is_tariff tariff i s
         = Inl (AttributeError (ascii ''group''))"
  using assms by (simp add: wrtite_tariff_TV_column_def py_getitem_def group_def)

lemma column_without_payment_raises:
  assumes "i < length heads" and "re_search_digits (strip (heads ! i)) = Some g"
    and "length g \<le> 4300"
    and "i < length cols" and "py_int (strip (cols ! i)) = Inl err"
  shows "wrtite_tariff_TV_column heads cols channel is_tariff tariff i s = Inl err"
proof -
  have "bindE (group (re_search_digits (strip (heads ! i)))) py_int = Inr (digits_value g)"
    using assms(2,3) by (rule search_digits_int)
  then have speed: "py_int g = Inr (digits_value g)"
    by (simp add: assms(2) group_def)
  with assms show ?thesis
    by (simp add: wrtite_tariff_TV_column_def py_getitem_def group_def Let_def)
qed

lemma wrtite_tariff_TV_raises:
  assumes i: "1 \<le> i" "i < length heads"
    and before: "\<forall>j. 1 \<le> j \<and> j < i \<longrightarrow> column_well_formed heads cols j"
    and col: "\<And>s1. wrtite_tariff_TV_column heads cols channel is_tariff tariff i s1 = Inl e"
  shows "wrtite_tariff_TV heads cols channel is_tariff tariff s = Inl e"
proof -
  have "\<forall>j. 1 \<le> j \<and> j < i \<longrightarrow> j < length heads \<and> column_well_formed heads cols j"
    using before i by auto
  from columns_before_ok [OF this] obtain s1
    where "for_each (wrtite_tariff_TV_column heads cols channel is_tariff tariff) [1 ..< i] s
           = Inr s1"
    by blast
  from for_each_raises [OF this col, of "[Suc i ..< length heads]"] show ?thesis
    unfolding wrtite_tariff_TV_def upt_split [OF i] .
qed

lemma re_search_label_int:
  assumes "re_search_label t = Some (name, num)" and "length num \<le> 4300"
  shows "py_int num = Inr (digits_value num)"
proof -
  from assms(1) obtain rest where "match_parenthetical rest = Some num"
    using re_search_label_from_Some [of "[]" t name num]
    by (auto simp: re_search_label_def)
  then have "num \<noteq> []" and "\<forall>c \<in> set num. Py_UNICODE_ISDECIMAL c"
    by (auto dest: match_parenthetical_Some)
  then show ?thesis
    using assms(2) by (rule py_int_digits)
qed

lemma row_raises_in_column:
  assumes cells: "tds r = c0 # cells"
    and resolved: "label_resolves s (strip c0)"
    and w: "\<And>channel is_tariff s1.
              wrtite_tariff_TV heads (tds r) channel is_tariff (strip c0) s1 = Inl e"
  shows "process_tariff_TV_row heads r s = Inl e"
proof (cases "count_tariff_channel s (strip c0)")
  case (Some ch)
  then show ?thesis
    by (simp add: process_tariff_TV_row_def cells py_getitem_def w [unfolded cells])
next
  case None
  with resolved obtain name num where lab: "re_search_label (strip c0) = Some (name, num)"
    and len: "length num \<le> 4300"
    by (auto simp: label_resolves_def)
  from re_search_label_int [OF lab len] None lab show ?thesis
    by (simp add: process_tariff_TV_row_def cells py_getitem_def groupdict_def w [unfolded cells])
qed

subsection \<open>Unfolding the model on a concrete page\<close>

lemmas ex_defs = ex_Start_def ex_350_rub_def ex_speed_30_def ex_speed_1500_def ex_Skorost_def
  ex_Cena_def ex_Paket_def ex_Telefon_def ex_Internet_50_def ex_Internet_100_def ex_Komfort_def
  ex_Komfort_120_def ex_utochnit_def ex_head_A_def ex_row_Start_def ex_row_1500_def
  ex_table_A_def ex_head_B_def ex_row_Komfort_120_def ex_row_Komfort_def ex_row_utochnit_def
  ex_table_B_def ex_table_B_base_def ex_table_B_utochnit_def ex_table_other_def
  ex_table_both_def ex_table_B_late_def ex_table_A_no_speed_def ex_table_B_no_speed_def
  ex_table_split_def ex_table_A_no_payment_def ex_table_case_def

lemmas lit_defs = lit_tariff_def lit_Internet_def lit_null_def lit_connector_def lit_TB_def
  lit_TB_ch_def headers_def ascii_def

lemmas char_eval = Py_UNICODE_ISSPACE_def ISDECIMAL_low TODECIMAL_low Py_ISSPACE_def
  ascii_digit_def

lemmas eval_defs = py_getitem_def strip_def str_of_int_def read_sign_def py_int_def
  round_half_even_def truediv_trunc_def int_of_truediv_def re_search_digits_def group_def
  groupdict_def int_max_str_digits_def
  match_parenthetical_def re_search_label_def process_tariff_row_def process_tariff_def
  wrtite_tariff_TV_column_def wrtite_tariff_TV_def process_tariff_TV_row_def
  process_tariff_TV_def process_table_def result_lists_def run_tables_def
  DataRialcom_process_data_def ParserRialcom_process_data_def DataRialcom_init_def
  save_data_column_def save_data_def DataFrame_def to_excel_def save_data_default_def
  scale_up.simps scale_down.simps py_split.simps digits_of_nat.simps digits_value_def

lemma ex_table_A_run:
  "process_table ex_table_A self =
     Inr (self\<lparr>names := names self @ [ex_Start], channels := channels self @ [PyStr lit_null],
               speeds := speeds self @ [0], payments := payments self @ [350]\<rparr>)"
  by (simp add: ex_defs lit_defs char_eval eval_defs)

lemma ex_table_B_run:
  assumes "count_tariff_channel self ex_Komfort_120 = None"
  shows "process_table ex_table_B self =
     Inr (self\<lparr>names := names self @ [ex_Komfort_120 @ lit_connector @ ascii ''50'' @ lit_TB,
                                        ex_Komfort_120 @ lit_connector @ ascii ''100'' @ lit_TB],
               channels := channels self @ [PyInt 120, PyInt 120],
               speeds := speeds self @ [50, 100],
               payments := payments self @ [600, 800],
               count_tariff_channel := (count_tariff_channel self)(ex_Komfort \<mapsto> 120)\<rparr>)"
  using assms by (simp add: ex_defs lit_defs char_eval eval_defs)

lemma ex_table_B_base_run:
  assumes "count_tariff_channel self ex_Komfort = Some ch"
  shows "process_table ex_table_B_base self =
     Inr (self\<lparr>names := names self @ [ex_Komfort @ lit_connector @ ascii ''50'' @ lit_TB_ch,
                                        ex_Komfort @ lit_connector @ ascii ''100'' @ lit_TB_ch],
               channels := channels self @ [PyInt ch, PyInt ch],
               speeds := speeds self @ [50, 100],
               payments := payments self @ [650, 850]\<rparr>)"
  using assms by (simp add: ex_defs lit_defs char_eval eval_defs)

lemma ex_table_other_run: "process_table ex_table_other self = Inr self"
  by (simp add: ex_defs lit_defs char_eval eval_defs)

lemma ex_table_B_utochnit_run:
  assumes "count_tariff_channel self ex_Komfort_120 = None"
  shows "process_table ex_table_B_utochnit self = Inl (ValueError (Invalid_literal ex_utochnit))"
  using assms by (simp add: ex_defs lit_defs char_eval eval_defs)

lemma ex_row_Start_run:
  "process_tariff_row ex_row_Start self =
     Inr (self\<lparr>names := names self @ [ex_Start], channels := channels self @ [PyStr lit_null],
               speeds := speeds self @ [0], payments := payments self @ [350]\<rparr>)"
  by (simp add: ex_defs lit_defs char_eval eval_defs)

lemma ex_row_1500_run:
  "process_tariff_row ex_row_1500 self =
     Inr (self\<lparr>names := names self @ [ex_Start], channels := channels self @ [PyStr lit_null],
               speeds := speeds self @ [1], payments := payments self @ [350]\<rparr>)"
  by (simp add: ex_defs lit_defs char_eval eval_defs)

lemma ex_column_run:
  "wrtite_tariff_TV_column (ths ex_head_B) (tds ex_row_Komfort_120) 120 False ex_Komfort_120 (Suc 0) self =
     Inr (self\<lparr>names := names self @ [ex_Komfort_120 @ lit_connector @ ascii ''50'' @ lit_TB],
               channels := channels self @ [PyInt 120],
               speeds := speeds self @ [50],
               payments := payments self @ [600]\<rparr>)"
  by (simp add: ex_defs lit_defs char_eval eval_defs)

lemma ex_row_Komfort_120_run:
  assumes "count_tariff_channel self ex_Komfort_120 = None"
  shows "process_tariff_TV_row (ths ex_head_B) ex_row_Komfort_120 self =
     Inr (self\<lparr>names := names self @ [ex_Komfort_120 @ lit_connector @ ascii ''50'' @ lit_TB,
                                        ex_Komfort_120 @ lit_connector @ ascii ''100'' @ lit_TB],
               channels := channels self @ [PyInt 120, PyInt 120],
               speeds := speeds self @ [50, 100],
               payments := payments self @ [600, 800],
               count_tariff_channel := (count_tariff_channel self)(ex_Komfort \<mapsto> 120)\<rparr>)"
  using assms by (simp add: ex_defs lit_defs char_eval eval_defs)

lemma ex_row_Komfort_run:
  assumes "count_tariff_channel self ex_Komfort = Some ch"
  shows "process_tariff_TV_row (ths ex_head_B) ex_row_Komfort self =
     Inr (self\<lparr>names := names self @ [ex_Komfort @ lit_connector @ ascii ''50'' @ lit_TB_ch,
                                        ex_Komfort @ lit_connector @ ascii ''100'' @ lit_TB_ch],
               channels := channels self @ [PyInt ch, PyInt ch],
               speeds := speeds self @ [50, 100],
               payments := payments self @ [650, 850]\<rparr>)"
  using assms by (simp add: ex_defs lit_defs char_eval eval_defs)

lemma registry_init [simp]: "count_tariff_channel (DataRialcom_init d) = Map.empty"
  by (simp add: DataRialcom_init_def)

lemma ex_page_A_B_run:
  "run_tables (DataRialcom_init [ex_table_A, ex_table_B]) =
     Inr \<lparr>data = [ex_table_A, ex_table_B],
          names = [ex_Start, ex_Komfort_120 @ lit_connector @ ascii ''50'' @ lit_TB,
                   ex_Komfort_120 @ lit_connector @ ascii ''100'' @ lit_TB],
          channels = [PyStr lit_null, PyInt 120, PyInt 120],
          speeds = [0, 50, 100],
          payments = [350, 600, 800],
          count_tariff_channel = [ex_Komfort \<mapsto> 120]\<rparr>"
  by (simp add: run_tables_def ex_table_A_run ex_table_B_run) (simp add: DataRialcom_init_def)

section \<open>Tables without rows\<close>

text \<open>
  C10. A table without rows makes \<open>process_data\<close> raise: reading \<open>rows[0]\<close> is an
  \<open>IndexError\<close> for every state of the parser, so such a table is never classified,
  processed or skipped. If the tables before it are processed without an exception, the
  exception of the call is this \<open>IndexError\<close>; otherwise the call has already raised.
\<close>

theorem empty_table_raises:
  assumes "data self = before @ [] # after"
  shows "process_table [] s = Inl IndexError \<and>
         (\<exists>e. ParserRialcom_process_data self = Inl e) \<and>
         (\<forall>s1. for_each process_table before (DataRialcom_init (data self)) = Inr s1 \<longrightarrow>
               ParserRialcom_process_data self = Inl IndexError \<and>
               DataRialcom_process_data (DataRialcom_init (data self)) = Inl IndexError)"
proof -
  let ?init = "DataRialcom_init (data self)"
  have run: "run_tables ?init =
      bindE (for_each process_table before ?init) (for_each process_table ([] # after))"
    by (simp add: run_tables_def assms for_each_append)
  have good: "run_tables ?init = Inl IndexError"
    if "for_each process_table before ?init = Inr s1" for s1
    using that by (simp add: run process_table_Nil)
  have "\<exists>e. run_tables ?init = Inl e"
  proof (cases "for_each process_table before ?init")
    case (Inl e)
    then show ?thesis by (simp add: run)
  next
    case (Inr s1)
    then show ?thesis by (simp add: good)
  qed
  then show ?thesis
    using good
    by (auto simp: ParserRialcom_process_data_def DataRialcom_process_data_def process_table_Nil)
qed

theorem empty_table_raises_witness:
  "data (DataRialcom_init [ex_table_A, [], ex_table_B]) = [ex_table_A] @ [] # [ex_table_B] \<and>
   for_each process_table [ex_table_A] (DataRialcom_init [ex_table_A, [], ex_table_B])
     = Inr ((DataRialcom_init [ex_table_A, [], ex_table_B])
             \<lparr>names := [ex_Start], channels := [PyStr lit_null], speeds := [0], payments := [350]\<rparr>) \<and>
   ParserRialcom_process_data (DataRialcom_init [ex_table_A, [], ex_table_B]) = Inl IndexError"
proof -
  let ?self = "DataRialcom_init [ex_table_A, [], ex_table_B]"
  have d: "data ?self = [ex_table_A] @ [] # [ex_table_B]"
    by simp
  have pre: "for_each process_table [ex_table_A] (DataRialcom_init (data ?self))
      = Inr (?self\<lparr>names := [ex_Start], channels := [PyStr lit_null], speeds := [0],
                    payments := [350]\<rparr>)"
    by (simp add: ex_table_A_run) (simp add: DataRialcom_init_def)
  from empty_table_raises [OF d, of ?self] pre
  have "ParserRialcom_process_data ?self = Inl IndexError"
    by blast
  with d pre show ?thesis
    by simp
qed

lemma ex_table_both_run:
  "process_table ex_table_both self =
     Inr (self\<lparr>names := names self @ [ex_Start], channels := channels self @ [PyStr lit_null],
               speeds := speeds self @ [1], payments := payments self @ [350]\<rparr>)"
  by (simp add: ex_defs lit_defs char_eval eval_defs)

section \<open>Classification of a table\<close>

text \<open>
  C4. A table with a first row is classified by the texts of the header cells of that
  row, joined with a single space: the joined text is the first cell followed by every
  other cell with a space (code point 32) before it. If the word of format 1 occurs in
  the joined text as a contiguous, case-sensitive substring, the data rows are processed
  one by one as rows of format 1, whether or not the word of format 2 occurs as well;
  otherwise, if the word of format 2 occurs, they are processed one by one as rows of
  format 2 under the header cells of the first row; otherwise the call returns the
  parser state unchanged: no record, no exception, the four lists and the registry as
  they were. Since the space is in neither word, a word occurs in the joined text
  exactly when it occurs in one of the header cells: a word split over two cells is not
  found.
\<close>

theorem table_classification:
  "process_table (r0 # rest) s =
     (let united_heads =
        (case ths r0 of [] \<Rightarrow> [] | h # hs \<Rightarrow> h @ concat (map (\<lambda>x. 32 # x) hs))
      in if sublist lit_tariff united_heads then for_each process_tariff_row rest s
         else if sublist lit_Internet united_heads
           then for_each (process_tariff_TV_row (ths r0)) rest s
         else Inr s) \<and>
   process_table (r0 # rest) s =
     (if \<exists>h \<in> set (ths r0). sublist lit_tariff h then for_each process_tariff_row rest s
      else if \<exists>h \<in> set (ths r0). sublist lit_Internet h
        then for_each (process_tariff_TV_row (ths r0)) rest s
      else Inr s)"
proof -
  let ?united = "case ths r0 of [] \<Rightarrow> [] | h # hs \<Rightarrow> h @ concat (map (\<lambda>x. 32 # x) hs)"
  have united: "join (ascii '' '') (ths r0) = ?united"
    by (cases "ths r0") (simp_all add: join_space ascii_def)
  have first: "process_table (r0 # rest) s =
     (if sublist lit_tariff ?united then for_each process_tariff_row rest s
      else if sublist lit_Internet ?united
        then for_each (process_tariff_TV_row (ths r0)) rest s
      else Inr s)"
    unfolding united [symmetric]
    by (simp add: process_table_def py_getitem_def re_search_literal_sublist process_tariff_def
        process_tariff_TV_def)
  have t: "sublist lit_tariff ?united \<longleftrightarrow> (\<exists>h \<in> set (ths r0). sublist lit_tariff h)"
    by (rule sublist_separated_cells) (simp_all add: lit_tariff_def)
  have i: "sublist lit_Internet ?united \<longleftrightarrow> (\<exists>h \<in> set (ths r0). sublist lit_Internet h)"
    by (rule sublist_separated_cells) (simp_all add: lit_Internet_def)
  from first show ?thesis
    unfolding Let_def t i by simp
qed

text \<open>
  Five tables on a fresh parser: a header with both words gives the record of format 1;
  a header with the word of format 2 only gives the two records of format 2 and the
  registry entry; a header with neither word, a header that splits both words over two
  cells each, and a header with both words in another case are skipped.
\<close>

theorem table_classification_witness:
  "process_table ex_table_both (DataRialcom_init []) =
     Inr ((DataRialcom_init [])\<lparr>names := [ex_Start], channels := [PyStr lit_null],
            speeds := [1], payments := [350]\<rparr>) \<and>
   process_table ex_table_B (DataRialcom_init []) =
     Inr ((DataRialcom_init [])
       \<lparr>names := [ex_Komfort_120 @ lit_connector @ ascii ''50'' @ lit_TB,
                  ex_Komfort_120 @ lit_connector @ ascii ''100'' @ lit_TB],
        channels := [PyInt 120, PyInt 120],
        speeds := [50, 100],
        payments := [600, 800],
        count_tariff_channel := [ex_Komfort \<mapsto> 120]\<rparr>) \<and>
   process_table ex_table_other (DataRialcom_init []) = Inr (DataRialcom_init []) \<and>
   process_table ex_table_split (DataRialcom_init []) = Inr (DataRialcom_init []) \<and>
   process_table ex_table_case (DataRialcom_init []) = Inr (DataRialcom_init []) \<and>
   sublist lit_tariff (concat (ths (hd ex_table_split))) \<and>
   sublist lit_Internet (concat (ths (hd ex_table_split)))"
proof -
  let ?s = "DataRialcom_init []"
  have both: "ex_table_both = \<lparr>ths = [ex_Internet_50, headers ! 0], tds = []\<rparr> # [ex_row_1500]"
    and B: "ex_table_B = ex_head_B # [ex_row_Komfort_120]"
    and other: "ex_table_other = \<lparr>ths = [ex_Telefon], tds = []\<rparr> # [\<lparr>ths = [], tds = [ascii ''x'']\<rparr>]"
    and split: "ex_table_split =
       \<lparr>ths = [[1090, 1072], [1088, 1080, 1092], [1048, 1085, 1090, 1077, 1088], [1085, 1077, 1090]],
        tds = []\<rparr> # [ex_row_Start]"
    and cased: "ex_table_case =
       \<lparr>ths = [[1058, 1040, 1056, 1048, 1060], [1080, 1085, 1090, 1077, 1088, 1085, 1077, 1090]],
        tds = []\<rparr> # [ex_row_Start]"
    by (simp_all add: ex_table_both_def ex_table_B_def ex_table_other_def ex_table_split_def
        ex_table_case_def)
  have words:
    "sublist lit_tariff (ex_Internet_50 @ 32 # headers ! 0)"
    "\<not> sublist lit_tariff (ex_Paket @ 32 # ex_Internet_50 @ 32 # ex_Internet_100)"
    "sublist lit_Internet (ex_Paket @ 32 # ex_Internet_50 @ 32 # ex_Internet_100)"
    "\<not> sublist lit_tariff ex_Telefon"
    "\<not> sublist lit_Internet ex_Telefon"
    "\<not> sublist lit_tariff ([1090, 1072] @ 32 # [1088, 1080, 1092] @ 32 #
          [1048, 1085, 1090, 1077, 1088] @ 32 # [1085, 1077, 1090])"
    "\<not> sublist lit_Internet ([1090, 1072] @ 32 # [1088, 1080, 1092] @ 32 #
          [1048, 1085, 1090, 1077, 1088] @ 32 # [1085, 1077, 1090])"
    "\<not> sublist lit_tariff ([1058, 1040, 1056, 1048, 1060] @ 32 #
          [1080, 1085, 1090, 1077, 1088, 1085, 1077, 1090])"
    "\<not> sublist lit_Internet ([1058, 1040, 1056, 1048, 1060] @ 32 #
          [1080, 1085, 1090, 1077, 1088, 1085, 1077, 1090])"
    by (simp_all add: re_search_literal_sublist [symmetric] ex_defs lit_defs)
  have unsplit: "sublist lit_tariff (concat (ths (hd ex_table_split)))"
    "sublist lit_Internet (concat (ths (hd ex_table_split)))"
    by (simp_all add: re_search_literal_sublist [symmetric] ex_table_split_def lit_defs)
  have 1: "process_table ex_table_both ?s = for_each process_tariff_row [ex_row_1500] ?s"
    unfolding both
    using table_classification [of "\<lparr>ths = [ex_Internet_50, headers ! 0], tds = []\<rparr>"
        "[ex_row_1500]" ?s] words
    by (simp add: Let_def)
  have 2: "process_table ex_table_B ?s =
      for_each (process_tariff_TV_row (ths ex_head_B)) [ex_row_Komfort_120] ?s"
    unfolding B
    using table_classification [of ex_head_B "[ex_row_Komfort_120]" ?s] words
    by (simp add: Let_def ex_head_B_def)
  have 3: "process_table ex_table_other ?s = Inr ?s"
    unfolding other
    using table_classification [of "\<lparr>ths = [ex_Telefon], tds = []\<rparr>"
        "[\<lparr>ths = [], tds = [ascii ''x'']\<rparr>]" ?s] words
    by (simp add: Let_def)
  have 4: "process_table ex_table_split ?s = Inr ?s"
    unfolding split
    using table_classification [of
        "\<lparr>ths = [[1090, 1072], [1088, 1080, 1092], [1048, 1085, 1090, 1077, 1088],
                 [1085, 1077, 1090]], tds = []\<rparr>" "[ex_row_Start]" ?s] words
    by (simp add: Let_def)
  have 5: "process_table ex_table_case ?s = Inr ?s"
    unfolding cased
    using table_classification [of
        "\<lparr>ths = [[1058, 1040, 1056, 1048, 1060],
                 [1080, 1085, 1090, 1077, 1088, 1085, 1077, 1090]], tds = []\<rparr>"
        "[ex_row_Start]" ?s] words
    by (simp add: Let_def)
  have 1: "process_table ex_table_both ?s =
     Inr (?s\<lparr>names := [ex_Start], channels := [PyStr lit_null], speeds := [1],
            payments := [350]\<rparr>)"
    unfolding 1 by (simp add: ex_row_1500_run) (simp add: DataRialcom_init_def)
  have 2: "process_table ex_table_B ?s =
     Inr (?s\<lparr>names := [ex_Komfort_120 @ lit_connector @ ascii ''50'' @ lit_TB,
                         ex_Komfort_120 @ lit_connector @ ascii ''100'' @ lit_TB],
            channels := [PyInt 120, PyInt 120],
            speeds := [50, 100],
            payments := [600, 800],
            count_tariff_channel := [ex_Komfort \<mapsto> 120]\<rparr>)"
    unfolding 2 by (simp add: ex_row_Komfort_120_run) (simp add: DataRialcom_init_def)
  from 1 2 3 4 5 unsplit show ?thesis
    by blast
qed


section \<open>The four output lists have equal length\<close>

text \<open>
  C5. At every point of a call at which a record, a row or a table is complete, the
  four lists \<open>names\<close>, \<open>channels\<close>, \<open>speeds\<close> and \<open>payments\<close> have the same
  length: they do so in the fresh object, every step that returns keeps them so (a
  row of format 1, which is one record; one column of a row of format 2, which is one
  record; a row of format 2; a table), and so they do when all tables are processed and
  in the list of four lists that the call returns.
\<close>

theorem equal_lengths_preserved:
  "equal_lengths (DataRialcom_init d) \<and>
   (equal_lengths s \<and> process_tariff_row r s = Inr s1 \<longrightarrow> equal_lengths s1) \<and>
   (equal_lengths s \<and> wrtite_tariff_TV_column heads cells channel is_tariff tariff i s = Inr s2
      \<longrightarrow> equal_lengths s2) \<and>
   (equal_lengths s \<and> process_tariff_TV_row heads r s = Inr s3 \<longrightarrow> equal_lengths s3) \<and>
   (equal_lengths s \<and> process_table rows s = Inr s4 \<longrightarrow> equal_lengths s4) \<and>
   (run_tables (DataRialcom_init d) = Inr s5 \<longrightarrow> equal_lengths s5) \<and>
   (ParserRialcom_process_data self = Inr cols \<longrightarrow>
      length cols = 4 \<and> (\<forall>l \<in> set cols. length l = length (cols ! 0)))"
proof -
  have run: "equal_lengths s5" if "run_tables (DataRialcom_init d) = Inr s5" for d s5
    using that equal_lengths_init [of d]
    by (auto simp: run_tables_def dest: tables_lengths)
  have "length cols = 4 \<and> (\<forall>l \<in> set cols. length l = length (cols ! 0))"
    if "ParserRialcom_process_data self = Inr cols"
  proof -
    from that obtain s' where s': "run_tables (DataRialcom_init (data self)) = Inr s'"
      and cols: "cols = result_lists s'"
      by (auto simp: ParserRialcom_process_data_def DataRialcom_process_data_def bindE_eq_Inr)
    from run [OF s'] show ?thesis
      by (simp add: cols result_lists_def equal_lengths_def)
  qed
  then have c7: "ParserRialcom_process_data self = Inr cols \<longrightarrow>
      length cols = 4 \<and> (\<forall>l \<in> set cols. length l = length (cols ! 0))"
    by (rule impI)
  have c1: "equal_lengths (DataRialcom_init d)"
    by (rule equal_lengths_init)
  have c2: "equal_lengths s \<and> process_tariff_row r s = Inr s1 \<longrightarrow> equal_lengths s1"
    by (blast intro: process_tariff_row_lengths)
  have c3: "equal_lengths s \<and>
      wrtite_tariff_TV_column heads cells channel is_tariff tariff i s = Inr s2
      \<longrightarrow> equal_lengths s2"
    by (blast intro: wrtite_tariff_TV_column_lengths)
  have c4: "equal_lengths s \<and> process_tariff_TV_row heads r s = Inr s3 \<longrightarrow> equal_lengths s3"
    by (blast intro: process_tariff_TV_row_lengths)
  have c5: "equal_lengths s \<and> process_table rows s = Inr s4 \<longrightarrow> equal_lengths s4"
    by (blast intro: process_table_lengths)
  have c6: "run_tables (DataRialcom_init d) = Inr s5 \<longrightarrow> equal_lengths s5"
    by (blast intro: run)
  from c1 c2 c3 c4 c5 c6 c7 show ?thesis
    by (intro conjI)
qed

theorem equal_lengths_preserved_witness:
  "equal_lengths (DataRialcom_init []) \<and>
   (case process_tariff_row ex_row_Start (DataRialcom_init []) of
      Inr s1 \<Rightarrow> equal_lengths s1 | Inl e \<Rightarrow> False) \<and>
   (case wrtite_tariff_TV_column (ths ex_head_B) (tds ex_row_Komfort_120) 120 False ex_Komfort_120
           (Suc 0) (DataRialcom_init []) of
      Inr s2 \<Rightarrow> equal_lengths s2 | Inl e \<Rightarrow> False) \<and>
   (case process_tariff_TV_row (ths ex_head_B) ex_row_Komfort_120 (DataRialcom_init []) of
      Inr s3 \<Rightarrow> equal_lengths s3 | Inl e \<Rightarrow> False) \<and>
   (case process_table ex_table_A (DataRialcom_init []) of
      Inr s4 \<Rightarrow> equal_lengths s4 | Inl e \<Rightarrow> False) \<and>
   (case run_tables (DataRialcom_init [ex_table_A, ex_table_B]) of
      Inr s5 \<Rightarrow> equal_lengths s5 | Inl e \<Rightarrow> False) \<and>
   (case ParserRialcom_process_data (DataRialcom_init [ex_table_A, ex_table_B]) of
      Inr cols \<Rightarrow> map length cols = [3, 3, 3, 3] | Inl e \<Rightarrow> False)"
proof -
  let ?s = "DataRialcom_init []"
  let ?page = "DataRialcom_init [ex_table_A, ex_table_B]"
  obtain s1 where e1: "process_tariff_row ex_row_Start ?s = Inr s1"
    by (simp add: ex_row_Start_run)
  obtain s2 where e2: "wrtite_tariff_TV_column (ths ex_head_B) (tds ex_row_Komfort_120) 120 False
      ex_Komfort_120 (Suc 0) ?s = Inr s2"
    by (simp add: ex_column_run)
  obtain s3 where e3: "process_tariff_TV_row (ths ex_head_B) ex_row_Komfort_120 ?s = Inr s3"
    by (simp add: ex_row_Komfort_120_run)
  obtain s4 where e4: "process_table ex_table_A ?s = Inr s4"
    by (simp add: ex_table_A_run)
  obtain s5 where e5: "run_tables ?page = Inr s5"
    by (simp add: ex_page_A_B_run)
  have e6: "ParserRialcom_process_data ?page =
      Inr [[PyStr ex_Start, PyStr (ex_Komfort_120 @ lit_connector @ ascii ''50'' @ lit_TB),
            PyStr (ex_Komfort_120 @ lit_connector @ ascii ''100'' @ lit_TB)],
           [PyStr lit_null, PyInt 120, PyInt 120],
           [PyInt 0, PyInt 50, PyInt 100],
           [PyInt 350, PyInt 600, PyInt 800]]"
    by (simp add: ParserRialcom_process_data_def DataRialcom_process_data_def ex_page_A_B_run
        result_lists_def)
  note inst = equal_lengths_preserved [where d = "[ex_table_A, ex_table_B]" and s = ?s
      and r = ex_row_Start and ?s1.0 = s1 and heads = "ths ex_head_B"
      and cells = "tds ex_row_Komfort_120" and channel = 120 and is_tariff = False
      and tariff = ex_Komfort_120 and i = "Suc 0" and ?s2.0 = s2 and ?s4.0 = s4 and rows = ex_table_A
      and ?s5.0 = s5 and self = ?page]
  have init: "equal_lengths ?s"
    using equal_lengths_preserved [where d = "[]"] by blast
  have r1: "equal_lengths s1" using inst init e1 by blast
  have r2: "equal_lengths s2" using inst init e2 by blast
  have r3: "equal_lengths s3"
    using equal_lengths_preserved [where s = ?s and heads = "ths ex_head_B"
        and r = ex_row_Komfort_120 and ?s3.0 = s3] init e3 by blast
  have r4: "equal_lengths s4" using inst init e4 by blast
  have r5: "equal_lengths s5" using inst e5 by blast
  show ?thesis
    by (simp add: init e1 r1 e2 r2 e3 r3 e4 r4 e5 r5 e6)
qed

section \<open>One record per speed column\<close>



section \<open>The record of a row of format 1\<close>

text \<open>
  C3 (amended). For a data row of a format 1 table with at least four data cells, whose
  cell 3 has a digit run of at most 4300 digits (the limit of \<open>int\<close> on a string)
  denoting a number below \<open>10 ^ 16\<close>, and whose cell 1 starts with a token that is an
  integer literal: the record has as name the stripped text of
  cell 0, as channels the string \<open>null\<close>, as speed the number of the first digit run of
  cell 3 divided by 1000 and rounded down, and as payment the integer of the first
  whitespace-delimited token of cell 1. A digit run \<open>1500\<close> gives the speed 1. The
  example row of the specification, whose cell 3 has the digit run \<open>30\<close>, gives the
  speed 0 and not 30. Lemmas \<open>strip_decomposition\<close>, \<open>re_search_digits_Some\<close> and
  \<open>py_split_first_token\<close> state what the stripped text, the first digit run and the
  first token of a text are.
\<close>

theorem process_tariff_row_record:
  assumes cells: "tds r = c0 # c1 # c2 # c3 # others"
    and run: "re_search_digits (strip c3) = Some g"
    and digits: "length g \<le> 4300"
    and small: "digits_value g < 10 ^ 16"
    and token: "py_split (strip c1) = token # tokens"
    and payment: "py_int token = Inr payment"
  shows "process_tariff_row r s =
     Inr (s\<lparr>names := names s @ [strip c0],
             channels := channels s @ [PyStr lit_null],
             speeds := speeds s @ [digits_value g div 1000],
             payments := payments s @ [payment]\<rparr>)"
proof -
  from re_search_digits_Some [OF run]
  have "g \<noteq> []" and "\<forall>c \<in> set g. Py_UNICODE_ISDECIMAL c"
    by blast+
  then have g: "py_int g = Inr (digits_value g)"
    using digits by (rule py_int_digits)
  have speed: "int_of_truediv (digits_value g) 1000 = Inr (digits_value g div 1000)"
    using digits_value_nonneg small by (rule int_of_truediv_small)
  show ?thesis
    by (simp add: process_tariff_row_def cells py_getitem_def run group_def g speed token payment)
qed

theorem process_tariff_row_record_witness:
  "process_tariff_row ex_row_1500 (DataRialcom_init []) =
     Inr ((DataRialcom_init [])\<lparr>names := [ex_Start], channels := [PyStr lit_null],
            speeds := [1], payments := [350]\<rparr>)"
proof -
  have cells: "tds ex_row_1500 = ex_Start # ex_350_rub # ascii ''-'' # ex_speed_1500 # []"
    by (simp add: ex_row_1500_def)
  have run: "re_search_digits (strip ex_speed_1500) = Some (ascii ''1500'')"
    by (simp add: ex_defs lit_defs char_eval eval_defs)
  have v: "digits_value (ascii ''1500'') = 1500"
    by (simp add: lit_defs char_eval eval_defs)
  have token: "py_split (strip ex_350_rub) = ascii ''350'' # [[1088, 1091, 1073]]"
    by (simp add: ex_defs lit_defs char_eval eval_defs)
  have payment: "py_int (ascii ''350'') = Inr 350"
    by (simp add: lit_defs char_eval eval_defs)
  have name: "strip ex_Start = ex_Start"
    by (simp add: ex_defs char_eval eval_defs)
  have digits: "length (ascii ''1500'') \<le> 4300"
    by (simp add: ascii_def)
  from process_tariff_row_record [OF cells run digits _ token payment, of "DataRialcom_init []"]
  show ?thesis
    by (simp add: v name) (simp add: DataRialcom_init_def)
qed

text \<open>
  The example row of the specification: its digit run is \<open>30\<close>, and \<open>int(30 / 1000)\<close>
  is 0, so the record has the speed 0 and not the speed 30 of the example.
\<close>

theorem spec_example_row_speed_counterexample:
  "ParserRialcom_process_data (DataRialcom_init [ex_table_A]) =
     Inr [[PyStr ex_Start], [PyStr lit_null], [PyInt 0], [PyInt 350]] \<and>
   ParserRialcom_process_data (DataRialcom_init [ex_table_A]) \<noteq>
     Inr [[PyStr ex_Start], [PyStr lit_null], [PyInt 30], [PyInt 350]]"
  by (simp add: ParserRialcom_process_data_def DataRialcom_process_data_def run_tables_def
      ex_table_A_run result_lists_def) (simp add: DataRialcom_init_def)

text \<open>
  Above the bound the float quotient can round up to the next integer, where integer
  division rounds down. A digit run of more than 4300 digits makes \<open>int\<close> raise,
  whatever number it denotes.
\<close>

lemma true_division_rounds_up:
  "int_of_truediv 17592186044416999 1000 = Inr 17592186044417 \<and>
   (17592186044416999 :: int) div 1000 = 17592186044416"
  by (simp add: eval_defs)

lemma long_run_of_small_value_raises:
  assumes "tds r = c0 # c1 # c2 # c3 # others"
    and "re_search_digits (strip c3) = Some g"
    and "4300 < length g"
  shows "process_tariff_row r s = Inl (ValueError (Exceeds_limit (length g)))"
proof -
  from re_search_digits_Some [OF assms(2)]
  have "g \<noteq> []" and "\<forall>c \<in> set g. Py_UNICODE_ISDECIMAL c"
    by blast+
  then have "py_int g = Inl (ValueError (Exceeds_limit (length g)))"
    using assms(3) by (rule py_int_long_run)
  then show ?thesis
    by (simp add: process_tariff_row_def assms(1,2) py_getitem_def group_def)
qed


section \<open>Format 1 records carry no channel count\<close>

text \<open>
  C7. Every record that a format 1 table contributes has the null marker of the parser
  as its channel count: processing the table appends one record for every row after the
  header row, and the \<open>channels\<close> entry of each is the string \<open>null\<close> that
  \<open>__process_tariff\<close> writes.
\<close>

theorem format_1_channels_null:
  assumes "sublist lit_tariff (join (ascii '' '') (ths r0))"
    and "process_table (r0 # rest) s = Inr s'"
  shows "channels s' = channels s @ replicate (length rest) (PyStr lit_null) \<and>
         length (names s') = length (names s) + length rest \<and>
         lit_null = [110, 117, 108, 108]"
proof -
  from assms have "for_each process_tariff_row rest s = Inr s'"
    by (simp add: process_table_def py_getitem_def re_search_literal_sublist process_tariff_def)
  from process_tariff_rows_shape [OF this] show ?thesis
    by (auto simp: lit_null_def ascii_def)
qed

theorem format_1_channels_null_witness:
  "sublist lit_tariff (join (ascii '' '') (ths ex_head_A)) \<and>
   process_table (ex_head_A # [ex_row_Start]) (DataRialcom_init []) =
     Inr ((DataRialcom_init [])\<lparr>names := [ex_Start], channels := [PyStr lit_null],
            speeds := [0], payments := [350]\<rparr>) \<and>
   channels ((DataRialcom_init [])\<lparr>names := [ex_Start], channels := [PyStr lit_null],
            speeds := [0], payments := [350]\<rparr>) = [PyStr [110, 117, 108, 108]]"
proof -
  have t: "sublist lit_tariff (join (ascii '' '') (ths ex_head_A))"
    by (simp add: re_search_literal_sublist [symmetric] ex_defs lit_defs)
  have run: "process_table (ex_head_A # [ex_row_Start]) (DataRialcom_init []) =
     Inr ((DataRialcom_init [])\<lparr>names := [ex_Start], channels := [PyStr lit_null],
            speeds := [0], payments := [350]\<rparr>)"
    using ex_table_A_run [of "DataRialcom_init []"]
    by (simp add: ex_table_A_def) (simp add: DataRialcom_init_def)
  from format_1_channels_null [OF t run] t run show ?thesis
    by (simp add: DataRialcom_init_def)
qed

lemma ex_state_after_B_run: "process_table ex_table_B (DataRialcom_init []) = Inr ex_state_after_B"
  by (simp add: ex_table_B_run) (simp add: DataRialcom_init_def ex_state_after_B_def)

lemma ex_labels:
  "strip ex_Komfort = ex_Komfort" "strip ex_Komfort_120 = ex_Komfort_120"
  "ex_Komfort_120 \<noteq> ex_Komfort"
  "re_search_label ex_Komfort_120 = Some (ex_Komfort, ascii ''120'')"
  "re_search_label ex_Komfort = None"
  "digits_value (ascii ''120'') = 120"
  by (simp_all add: ex_defs lit_defs char_eval eval_defs)

section \<open>Repeat bundles\<close>

text \<open>
  C1 (amended). The channel registry is keyed by the base name that the bundle pattern
  captures in front of the parenthesis, while a row is looked up by its whole stripped
  label. For a row of a format 2 table processed without exception:
  \<^item> if the label is a key of the registry, every record of the row has a name that ends
    in the suffix of a repeat bundle and carries the channel count stored under that
    key, and the registry is left as it was (the label is not parsed);
  \<^item> if the label has a parenthesised group that the pattern matches, it is not a key
    (in any state whose keys are base names, as all states of a call are), so also a
    second occurrence of the very same label is parsed again: its records end in the
    suffix of a first-seen bundle, carry the count parsed from the label (the same as at
    the first occurrence), and the base name, which differs from the label, is stored.
\<close>

theorem repeat_bundle_is_a_known_base_name:
  assumes cells: "tds r = c0 # cells"
    and run: "process_tariff_TV_row heads r s = Inr s'"
  shows "(count_tariff_channel s (strip c0) = Some ch \<longrightarrow>
            count_tariff_channel s' = count_tariff_channel s \<and>
            (\<exists>vs ps. length vs = length heads - 1 \<and> length ps = length heads - 1 \<and>
               s' = s\<lparr>names := names s @ map (\<lambda>v. strip c0 @ lit_connector @ str_of_int v
                                                  @ lit_TB_ch) vs,
                      channels := channels s @ replicate (length heads - 1) (PyInt ch),
                      speeds := speeds s @ vs,
                      payments := payments s @ ps\<rparr>)) \<and>
         (plain_keys s \<and> re_search_label (strip c0) = Some (name, num) \<longrightarrow>
            count_tariff_channel s (strip c0) = None \<and> name \<noteq> strip c0 \<and>
            (\<exists>vs ps. length vs = length heads - 1 \<and> length ps = length heads - 1 \<and>
               s' = s\<lparr>count_tariff_channel := (count_tariff_channel s)(name \<mapsto> digits_value num),
                      names := names s @ map (\<lambda>v. strip c0 @ lit_connector @ str_of_int v
                                                  @ lit_TB) vs,
                      channels := channels s @ replicate (length heads - 1) (PyInt (digits_value num)),
                      speeds := speeds s @ vs,
                      payments := payments s @ ps\<rparr>))"
proof (intro conjI impI)
  assume hit: "count_tariff_channel s (strip c0) = Some ch"
  with cells run have w: "wrtite_tariff_TV heads (tds r) ch True (strip c0) s = Inr s'"
    by (simp add: process_tariff_TV_row_def py_getitem_def)
  then show "count_tariff_channel s' = count_tariff_channel s"
    by (rule wrtite_tariff_TV_registry)
  from wrtite_tariff_TV_shape [OF w]
  show "\<exists>vs ps. length vs = length heads - 1 \<and> length ps = length heads - 1 \<and>
               s' = s\<lparr>names := names s @ map (\<lambda>v. strip c0 @ lit_connector @ str_of_int v
                                                  @ lit_TB_ch) vs,
                      channels := channels s @ replicate (length heads - 1) (PyInt ch),
                      speeds := speeds s @ vs,
                      payments := payments s @ ps\<rparr>"
    by simp
next
  assume a: "plain_keys s \<and> re_search_label (strip c0) = Some (name, num)"
  then show none: "count_tariff_channel s (strip c0) = None"
    by (blast intro: label_with_group_not_a_key)
  from a show "name \<noteq> strip c0"
    by (blast dest: base_name_not_a_label(2))
  from run show "\<exists>vs ps. length vs = length heads - 1 \<and> length ps = length heads - 1 \<and>
               s' = s\<lparr>count_tariff_channel := (count_tariff_channel s)(name \<mapsto> digits_value num),
                      names := names s @ map (\<lambda>v. strip c0 @ lit_connector @ str_of_int v
                                                  @ lit_TB) vs,
                      channels := channels s @ replicate (length heads - 1) (PyInt (digits_value num)),
                      speeds := speeds s @ vs,
                      payments := payments s @ ps\<rparr>"
  proof (cases rule: process_tariff_TV_row_cases)
    case (repeat c0' channel)
    with cells none show ?thesis
      by (simp add: py_getitem_def)
  next
    case (first_seen c0' name' num')
    with cells a have eq: "c0' = c0" "name' = name" "num' = num"
      by (simp_all add: py_getitem_def)
    from wrtite_tariff_TV_shape [OF first_seen(4)] show ?thesis
      unfolding eq by simp
  qed
qed

theorem repeat_bundle_is_a_known_base_name_witness:
  "process_table ex_table_B (DataRialcom_init []) = Inr ex_state_after_B \<and>
   plain_keys ex_state_after_B \<and>
   count_tariff_channel ex_state_after_B (strip ex_Komfort) = Some 120 \<and>
   re_search_label (strip ex_Komfort) = None \<and>
   process_tariff_TV_row (ths ex_head_B) ex_row_Komfort ex_state_after_B =
     Inr (ex_state_after_B
       \<lparr>names := names ex_state_after_B @
                   [ex_Komfort @ lit_connector @ ascii ''50'' @ lit_TB_ch,
                    ex_Komfort @ lit_connector @ ascii ''100'' @ lit_TB_ch],
        channels := channels ex_state_after_B @ [PyInt 120, PyInt 120],
        speeds := speeds ex_state_after_B @ [50, 100],
        payments := payments ex_state_after_B @ [650, 850]\<rparr>) \<and>
   re_search_label (strip ex_Komfort_120) = Some (ex_Komfort, ascii ''120'') \<and>
   count_tariff_channel ex_state_after_B (strip ex_Komfort_120) = None \<and>
   process_tariff_TV_row (ths ex_head_B) ex_row_Komfort_120 ex_state_after_B =
     Inr (ex_state_after_B
       \<lparr>names := names ex_state_after_B @
                   [ex_Komfort_120 @ lit_connector @ ascii ''50'' @ lit_TB,
                    ex_Komfort_120 @ lit_connector @ ascii ''100'' @ lit_TB],
        channels := channels ex_state_after_B @ [PyInt 120, PyInt 120],
        speeds := speeds ex_state_after_B @ [50, 100],
        payments := payments ex_state_after_B @ [600, 800]\<rparr>)"
proof -
  let ?s = ex_state_after_B
  have plain: "plain_keys ?s"
    using plain_keys_init ex_state_after_B_run by (rule process_table_plain_keys)
  have hit: "count_tariff_channel ?s (strip ex_Komfort) = Some 120"
    by (simp add: ex_labels ex_state_after_B_def)
  have r1: "process_tariff_TV_row (ths ex_head_B) ex_row_Komfort ?s =
     Inr (?s\<lparr>names := names ?s @
                   [ex_Komfort @ lit_connector @ ascii ''50'' @ lit_TB_ch,
                    ex_Komfort @ lit_connector @ ascii ''100'' @ lit_TB_ch],
        channels := channels ?s @ [PyInt 120, PyInt 120],
        speeds := speeds ?s @ [50, 100],
        payments := payments ?s @ [650, 850]\<rparr>)"
    using hit by (intro ex_row_Komfort_run) (simp add: ex_labels)
  have lab: "re_search_label (strip ex_Komfort_120) = Some (ex_Komfort, ascii ''120'')"
    by (simp add: ex_labels)
  have c1: "tds ex_row_Komfort_120 = ex_Komfort_120 # [ascii ''600'', ascii ''800'']"
    by (simp add: ex_row_Komfort_120_def)
  have none0: "count_tariff_channel ?s ex_Komfort_120 = None"
    by (simp add: ex_state_after_B_def ex_labels)
  have r2': "process_tariff_TV_row (ths ex_head_B) ex_row_Komfort_120 ?s =
     Inr (?s\<lparr>names := names ?s @
                   [ex_Komfort_120 @ lit_connector @ ascii ''50'' @ lit_TB,
                    ex_Komfort_120 @ lit_connector @ ascii ''100'' @ lit_TB],
        channels := channels ?s @ [PyInt 120, PyInt 120],
        speeds := speeds ?s @ [50, 100],
        payments := payments ?s @ [600, 800],
        count_tariff_channel := (count_tariff_channel ?s)(ex_Komfort \<mapsto> 120)\<rparr>)"
    using none0 by (rule ex_row_Komfort_120_run)
  have same: "(count_tariff_channel ?s)(ex_Komfort \<mapsto> 120) = count_tariff_channel ?s"
    by (simp add: ex_state_after_B_def)
  have r2: "process_tariff_TV_row (ths ex_head_B) ex_row_Komfort_120 ?s =
     Inr (?s\<lparr>names := names ?s @
                   [ex_Komfort_120 @ lit_connector @ ascii ''50'' @ lit_TB,
                    ex_Komfort_120 @ lit_connector @ ascii ''100'' @ lit_TB],
        channels := channels ?s @ [PyInt 120, PyInt 120],
        speeds := speeds ?s @ [50, 100],
        payments := payments ?s @ [600, 800]\<rparr>)"
    unfolding r2' same by simp
  from repeat_bundle_is_a_known_base_name [OF c1 r2, of 0 ex_Komfort "ascii ''120''"] plain lab
  have none: "count_tariff_channel ?s (strip ex_Komfort_120) = None"
    by blast
  show ?thesis
    using ex_state_after_B_run plain hit r1 lab none r2 by (simp add: ex_labels)
qed

text \<open>
  Two format 2 tables with the same row, hence the same label: the two records of the
  second table end in the suffix of a first-seen bundle, not in that of a repeat bundle.
\<close>

theorem same_label_again_counterexample:
  "ParserRialcom_process_data (DataRialcom_init [ex_table_B, ex_table_B]) =
     Inr [[PyStr (ex_Komfort_120 @ lit_connector @ ascii ''50'' @ lit_TB),
           PyStr (ex_Komfort_120 @ lit_connector @ ascii ''100'' @ lit_TB),
           PyStr (ex_Komfort_120 @ lit_connector @ ascii ''50'' @ lit_TB),
           PyStr (ex_Komfort_120 @ lit_connector @ ascii ''100'' @ lit_TB)],
          [PyInt 120, PyInt 120, PyInt 120, PyInt 120],
          [PyInt 50, PyInt 100, PyInt 50, PyInt 100],
          [PyInt 600, PyInt 800, PyInt 600, PyInt 800]] \<and>
   \<not> suffix lit_TB_ch (ex_Komfort_120 @ lit_connector @ ascii ''50'' @ lit_TB) \<and>
   \<not> suffix lit_TB_ch (ex_Komfort_120 @ lit_connector @ ascii ''100'' @ lit_TB)"
proof -
  have first: "process_table ex_table_B (DataRialcom_init [ex_table_B, ex_table_B]) =
      Inr (ex_state_after_B\<lparr>data := [ex_table_B, ex_table_B]\<rparr>)"
    by (simp add: ex_table_B_run) (simp add: DataRialcom_init_def ex_state_after_B_def)
  have none: "count_tariff_channel (ex_state_after_B\<lparr>data := [ex_table_B, ex_table_B]\<rparr>)
      ex_Komfort_120 = None"
    by (simp add: ex_state_after_B_def ex_labels)
  have run: "ParserRialcom_process_data (DataRialcom_init [ex_table_B, ex_table_B]) =
     Inr [[PyStr (ex_Komfort_120 @ lit_connector @ ascii ''50'' @ lit_TB),
           PyStr (ex_Komfort_120 @ lit_connector @ ascii ''100'' @ lit_TB),
           PyStr (ex_Komfort_120 @ lit_connector @ ascii ''50'' @ lit_TB),
           PyStr (ex_Komfort_120 @ lit_connector @ ascii ''100'' @ lit_TB)],
          [PyInt 120, PyInt 120, PyInt 120, PyInt 120],
          [PyInt 50, PyInt 100, PyInt 50, PyInt 100],
          [PyInt 600, PyInt 800, PyInt 600, PyInt 800]]"
    by (simp add: ParserRialcom_process_data_def DataRialcom_process_data_def run_tables_def
        first ex_table_B_run [OF none] result_lists_def)
       (simp add: ex_state_after_B_def)
  have "\<not> suffix lit_TB_ch (ex_Komfort_120 @ lit_connector @ ascii ''50'' @ lit_TB)"
    and "\<not> suffix lit_TB_ch (ex_Komfort_120 @ lit_connector @ ascii ''100'' @ lit_TB)"
    by (simp_all add: suffix_to_prefix ex_defs lit_defs)
  with run show ?thesis by blast
qed

lemma ex_cells:
  "strip ex_Skorost = ex_Skorost" "re_search_digits ex_Skorost = None"
  "re_search_digits (strip ex_Cena) = None"
  "re_search_digits (strip ex_Internet_50) = Some (ascii ''50'')"
  "re_search_digits (strip ex_Internet_100) = Some (ascii ''100'')"
  "py_int (strip (ascii ''600'')) = Inr 600" "py_int (strip (ascii ''650'')) = Inr 650"
  "strip ex_utochnit = ex_utochnit"
  "py_int ex_utochnit = Inl (ValueError (Invalid_literal ex_utochnit))"
  "re_search_digits (strip ex_speed_1500) = Some (ascii ''1500'')"
  "int_of_truediv (digits_value (ascii ''1500'')) 1000 = Inr 1"
  "py_split (strip ex_utochnit) = ex_utochnit # []"
  by (simp_all add: ex_defs lit_defs char_eval eval_defs)

lemma ex_heads:
  "sublist lit_tariff (join (ascii '' '') (ths ex_head_A))"
  "\<not> sublist lit_tariff (join (ascii '' '') (ths ex_head_B))"
  "sublist lit_Internet (join (ascii '' '') (ths ex_head_B))"
  "\<not> sublist lit_tariff (join (ascii '' '') [ex_Paket, ex_Internet_50, ex_Cena])"
  "sublist lit_Internet (join (ascii '' '') [ex_Paket, ex_Internet_50, ex_Cena])"
  by (simp_all add: re_search_literal_sublist [symmetric] ex_defs lit_defs)

lemma ex_table_B_late_run:
  assumes "count_tariff_channel self ex_Komfort_120 = None"
  shows "process_table ex_table_B_late self = Inl (ValueError (Invalid_literal ex_utochnit))"
  using assms by (simp add: ex_defs lit_defs char_eval eval_defs)

lemma ex_table_A_no_payment_run:
  "process_table ex_table_A_no_payment self = Inl (ValueError (Invalid_literal ex_utochnit))"
  by (simp add: ex_defs lit_defs char_eval eval_defs)

lemma ex_table_A_no_speed_run:
  "process_table ex_table_A_no_speed self = Inl (AttributeError (ascii ''group''))"
  by (simp add: ex_defs lit_defs char_eval eval_defs)

lemma ex_table_B_no_speed_run:
  assumes "count_tariff_channel self ex_Komfort_120 = None"
  shows "process_table ex_table_B_no_speed self = Inl (AttributeError (ascii ''group''))"
  using assms by (simp add: ex_defs lit_defs char_eval eval_defs)

section \<open>A malformed cell ends the call\<close>

text \<open>
  C6 (amended). When the run reaches a malformed cell, the whole call raises the built-in
  exception of the operation that failed on that cell and returns no lists, and
  \<open>save_data\<close> raises it too, before pandas is called, so that nothing is written. With
  the tables before the table and the rows before the row processed without exception:
  \<^item> a format 1 row whose cell 3 has no digit run raises the \<open>AttributeError\<close> of \<open>group\<close>
    on \<open>None\<close>;
  \<^item> a format 1 row whose cell 3 is well formed (a digit run of at most 4300 digits, with
    a quotient by 1000 that converts to \<open>int\<close>) and whose first token of cell 1 is no
    integer literal raises the \<open>ValueError\<close> of \<open>int()\<close> on that token;
  \<^item> a format 2 row whose label is no key of the registry and has no parenthesised
    group of digits raises the \<open>AttributeError\<close> of \<open>groupdict\<close> on \<open>None\<close>;
  \<^item> a format 2 row whose label resolves and whose header cell \<open>i\<close> has no digit run,
    the columns before it being well formed, raises the \<open>AttributeError\<close> of \<open>group\<close>
    on \<open>None\<close>;
  \<^item> such a row whose header cell \<open>i\<close> has a digit run of at most 4300 digits and whose
    data cell \<open>i\<close>, stripped, is no integer literal raises the \<open>ValueError\<close> of \<open>int()\<close>
    on that text.
  The \<open>ValueError\<close> of \<open>int()\<close> on a text either quotes that text (invalid literal) or
  states that the limit of 4300 digits is exceeded. The exception is thus fixed by the
  failing operation and the text it was applied to: the page, the table and the rows
  before occur in none of the exceptions above.
\<close>

theorem malformed_cell_aborts_call:
  assumes page: "data self = before @ (r0 # rows_before @ r # rows_after) # after"
    and tables: "for_each process_table before (DataRialcom_init (data self)) = Inr s"
  shows
    "(sublist lit_tariff (join (ascii '' '') (ths r0)) \<and>
      for_each process_tariff_row rows_before s = Inr s1 \<and>
      tds r = c0 # c1 # c2 # c3 # others
      \<longrightarrow>
        (re_search_digits (strip c3) = None
           \<longrightarrow> ParserRialcom_process_data self = Inl (AttributeError (ascii ''group''))) \<and>
        (re_search_digits (strip c3) = Some g \<and> length g \<le> 4300 \<and>
         int_of_truediv (digits_value g) 1000 = Inr v \<and>
         py_split (strip c1) = token # tokens \<and> py_int token = Inl err
           \<longrightarrow> ParserRialcom_process_data self = Inl err)) \<and>
     (\<not> sublist lit_tariff (join (ascii '' '') (ths r0)) \<and>
      sublist lit_Internet (join (ascii '' '') (ths r0)) \<and>
      for_each (process_tariff_TV_row (ths r0)) rows_before s = Inr s2 \<and>
      tds r = c0 # cells
      \<longrightarrow>
        (count_tariff_channel s2 (strip c0) = None \<and> re_search_label (strip c0) = None
           \<longrightarrow> ParserRialcom_process_data self = Inl (AttributeError (ascii ''groupdict''))) \<and>
        (label_resolves s2 (strip c0) \<and> 1 \<le> i \<and> i < length (ths r0) \<and>
         (\<forall>j. 1 \<le> j \<and> j < i \<longrightarrow> column_well_formed (ths r0) (tds r) j)
           \<longrightarrow>
             (re_search_digits (strip (ths r0 ! i)) = None
                \<longrightarrow> ParserRialcom_process_data self = Inl (AttributeError (ascii ''group''))) \<and>
             (re_search_digits (strip (ths r0 ! i)) = Some g \<and> length g \<le> 4300 \<and>
              i < length (tds r) \<and> py_int (strip (tds r ! i)) = Inl err
                \<longrightarrow> ParserRialcom_process_data self = Inl err))) \<and>
     (py_int text = Inl err
      \<longrightarrow> err = ValueError (Invalid_literal text) \<or>
          (\<exists>n. 4300 < n \<and> err = ValueError (Exceeds_limit n))) \<and>
     (ParserRialcom_process_data self = Inl e \<longrightarrow> save_data pd self name = Inl e)"
proof (intro conjI impI)
  assume a: "sublist lit_tariff (join (ascii '' '') (ths r0)) \<and>
      for_each process_tariff_row rows_before s = Inr s1 \<and>
      tds r = c0 # c1 # c2 # c3 # others"
  have up: "ParserRialcom_process_data self = Inl x" if "process_tariff_row r s1 = Inl x" for x
  proof -
    from a that have "process_table (r0 # rows_before @ r # rows_after) s = Inl x"
      by (blast intro: table_raises_format_1)
    with page tables show ?thesis
      by (rule call_raises)
  qed
  {
    assume "re_search_digits (strip c3) = None"
    with a have "process_tariff_row r s1 = Inl (AttributeError (ascii ''group''))"
      by (blast intro: row_without_speed_raises)
    then show "ParserRialcom_process_data self = Inl (AttributeError (ascii ''group''))"
      by (rule up)
  }
  {
    assume "re_search_digits (strip c3) = Some g \<and> length g \<le> 4300 \<and>
         int_of_truediv (digits_value g) 1000 = Inr v \<and>
         py_split (strip c1) = token # tokens \<and> py_int token = Inl err"
    with a have "process_tariff_row r s1 = Inl err"
      by (blast intro: row_without_payment_raises)
    then show "ParserRialcom_process_data self = Inl err"
      by (rule up)
  }
next
  assume b: "\<not> sublist lit_tariff (join (ascii '' '') (ths r0)) \<and>
      sublist lit_Internet (join (ascii '' '') (ths r0)) \<and>
      for_each (process_tariff_TV_row (ths r0)) rows_before s = Inr s2 \<and>
      tds r = c0 # cells"
  have up: "ParserRialcom_process_data self = Inl x"
    if "process_tariff_TV_row (ths r0) r s2 = Inl x" for x
  proof -
    from b that have "process_table (r0 # rows_before @ r # rows_after) s = Inl x"
      by (blast intro: table_raises_format_2)
    with page tables show ?thesis
      by (rule call_raises)
  qed
  {
    assume "count_tariff_channel s2 (strip c0) = None \<and> re_search_label (strip c0) = None"
    with b have "process_tariff_TV_row (ths r0) r s2 = Inl (AttributeError (ascii ''groupdict''))"
      by (blast intro: row_without_group_raises)
    then show "ParserRialcom_process_data self = Inl (AttributeError (ascii ''groupdict''))"
      by (rule up)
  }
  assume c: "label_resolves s2 (strip c0) \<and> 1 \<le> i \<and> i < length (ths r0) \<and>
         (\<forall>j. 1 \<le> j \<and> j < i \<longrightarrow> column_well_formed (ths r0) (tds r) j)"
  then have i: "1 \<le> i" "i < length (ths r0)"
    and before_i: "\<forall>j. 1 \<le> j \<and> j < i \<longrightarrow> column_well_formed (ths r0) (tds r) j"
    and resolved: "label_resolves s2 (strip c0)"
    by blast+
  from b have cells: "tds r = c0 # cells"
    by blast
  have row: "process_tariff_TV_row (ths r0) r s2 = Inl x"
    if "\<And>channel is_tariff s'.
          wrtite_tariff_TV_column (ths r0) (tds r) channel is_tariff (strip c0) i s' = Inl x" for x
    using cells resolved
  proof (rule row_raises_in_column)
    fix channel is_tariff s'
    show "wrtite_tariff_TV (ths r0) (tds r) channel is_tariff (strip c0) s' = Inl x"
      using i before_i that by (rule wrtite_tariff_TV_raises)
  qed
  {
    assume "re_search_digits (strip (ths r0 ! i)) = None"
    with i(2) have "process_tariff_TV_row (ths r0) r s2 = Inl (AttributeError (ascii ''group''))"
      by (intro row column_without_speed_raises)
    then show "ParserRialcom_process_data self = Inl (AttributeError (ascii ''group''))"
      by (rule up)
  }
  {
    assume d: "re_search_digits (strip (ths r0 ! i)) = Some g \<and> length g \<le> 4300 \<and>
              i < length (tds r) \<and> py_int (strip (tds r ! i)) = Inl err"
    with i(2) have "process_tariff_TV_row (ths r0) r s2 = Inl err"
      by (intro row column_without_payment_raises [where g = g]) blast+
    then show "ParserRialcom_process_data self = Inl err"
      by (rule up)
  }
next
  assume "py_int text = Inl err"
  then show "err = ValueError (Invalid_literal text) \<or>
          (\<exists>n. 4300 < n \<and> err = ValueError (Exceeds_limit n))"
    by (rule py_int_error)
next
  assume "ParserRialcom_process_data self = Inl e"
  then show "save_data pd self name = Inl e"
    by (rule save_data_raises)
qed

text \<open>
  Five pages, one for each kind of malformed cell; the last one also through
  \<open>save_data\<close>, with a pandas that would write the file.
\<close>

theorem malformed_cell_aborts_call_witness:
  "ParserRialcom_process_data (DataRialcom_init [ex_table_B, ex_table_A_no_speed])
     = Inl (AttributeError (ascii ''group'')) \<and>
   ParserRialcom_process_data (DataRialcom_init [ex_table_B, ex_table_A_no_payment])
     = Inl (ValueError (Invalid_literal ex_utochnit)) \<and>
   ParserRialcom_process_data (DataRialcom_init [ex_table_A, ex_table_B_base])
     = Inl (AttributeError (ascii ''groupdict'')) \<and>
   ParserRialcom_process_data (DataRialcom_init [ex_table_B_no_speed])
     = Inl (AttributeError (ascii ''group'')) \<and>
   ParserRialcom_process_data (DataRialcom_init [ex_table_A, ex_table_B_late])
     = Inl (ValueError (Invalid_literal ex_utochnit)) \<and>
   save_data ex_pandas (DataRialcom_init [ex_table_A, ex_table_B_late]) (ascii ''example'')
     = Inl (ValueError (Invalid_literal ex_utochnit))"
proof -
  have w1: "ParserRialcom_process_data (DataRialcom_init [ex_table_B, ex_table_A_no_speed])
     = Inl (AttributeError (ascii ''group''))"
  proof -
    let ?self = "DataRialcom_init [ex_table_B, ex_table_A_no_speed]"
    let ?r = "\<lparr>ths = [], tds = [ex_Start, ex_350_rub, ascii ''-'', ex_Skorost]\<rparr>"
    have page: "data ?self = [ex_table_B] @ (ex_head_A # [ex_row_Start] @ ?r # []) # []"
      by (simp add: ex_table_A_no_speed_def)
    obtain s where tables: "for_each process_table [ex_table_B] (DataRialcom_init (data ?self)) = Inr s"
      by (simp add: ex_table_B_run)
    obtain s1 where rows: "for_each process_tariff_row [ex_row_Start] s = Inr s1"
      by (simp add: ex_row_Start_run)
    have cells: "tds ?r = ex_Start # ex_350_rub # ascii ''-'' # ex_Skorost # []"
      by simp
    from malformed_cell_aborts_call [OF page tables, of s1 ex_Start ex_350_rub "ascii ''-''"
        ex_Skorost "[]"] ex_heads(1) rows cells ex_cells(1,2)
    show ?thesis by simp
  qed
  have w1b: "ParserRialcom_process_data (DataRialcom_init [ex_table_B, ex_table_A_no_payment])
     = Inl (ValueError (Invalid_literal ex_utochnit))"
  proof -
    let ?self = "DataRialcom_init [ex_table_B, ex_table_A_no_payment]"
    let ?r = "\<lparr>ths = [], tds = [ex_Start, ex_utochnit, ascii ''-'', ex_speed_1500]\<rparr>"
    have page: "data ?self = [ex_table_B] @ (ex_head_A # [] @ ?r # []) # []"
      by (simp add: ex_table_A_no_payment_def)
    obtain s where tables: "for_each process_table [ex_table_B] (DataRialcom_init (data ?self)) = Inr s"
      by (simp add: ex_table_B_run)
    have rows: "for_each process_tariff_row [] s = Inr s"
      by simp
    have cells: "tds ?r = ex_Start # ex_utochnit # ascii ''-'' # ex_speed_1500 # []"
      by simp
    have digits: "length (ascii ''1500'') \<le> 4300"
      by (simp add: ascii_def)
    from malformed_cell_aborts_call [OF page tables, where ?s1.0 = s and ?c0.0 = ex_Start
        and ?c1.0 = ex_utochnit and ?c2.0 = "ascii ''-''" and ?c3.0 = ex_speed_1500
        and others = "[]" and g = "ascii ''1500''" and v = 1 and token = ex_utochnit
        and tokens = "[]" and err = "ValueError (Invalid_literal ex_utochnit)"]
      ex_heads(1) rows cells digits ex_cells(9,10,11,12)
    show ?thesis by simp
  qed
  have w2: "ParserRialcom_process_data (DataRialcom_init [ex_table_A, ex_table_B_base])
     = Inl (AttributeError (ascii ''groupdict''))"
  proof -
    let ?self = "DataRialcom_init [ex_table_A, ex_table_B_base]"
    have page: "data ?self = [ex_table_A] @ (ex_head_B # [] @ ex_row_Komfort # []) # []"
      by (simp add: ex_table_B_base_def)
    obtain s where tables: "for_each process_table [ex_table_A] (DataRialcom_init (data ?self)) = Inr s"
      and reg: "count_tariff_channel s = Map.empty"
      by (simp add: ex_table_A_run)
    have rows: "for_each (process_tariff_TV_row (ths ex_head_B)) [] s = Inr s"
      by simp
    have cells: "tds ex_row_Komfort = ex_Komfort # [ascii ''650'', ascii ''850'']"
      by (simp add: ex_row_Komfort_def)
    from malformed_cell_aborts_call [OF page tables, where ?s2.0 = s and ?c0.0 = ex_Komfort
        and cells = "[ascii ''650'', ascii ''850'']"] ex_heads(2,3) rows cells reg ex_labels(1,5)
    show ?thesis by simp
  qed
  have w3: "ParserRialcom_process_data (DataRialcom_init [ex_table_B_no_speed])
     = Inl (AttributeError (ascii ''group''))"
  proof -
    let ?self = "DataRialcom_init [ex_table_B_no_speed]"
    let ?r0 = "\<lparr>ths = [ex_Paket, ex_Internet_50, ex_Cena], tds = []\<rparr>"
    have page: "data ?self = [] @ (?r0 # [] @ ex_row_Komfort_120 # []) # []"
      by (simp add: ex_table_B_no_speed_def)
    have tables: "for_each process_table [] (DataRialcom_init (data ?self)) = Inr ?self"
      by simp
    have rows: "for_each (process_tariff_TV_row (ths ?r0)) [] ?self = Inr ?self"
      by simp
    have cells: "tds ex_row_Komfort_120 = ex_Komfort_120 # [ascii ''600'', ascii ''800'']"
      by (simp add: ex_row_Komfort_120_def)
    have before_i: "\<forall>j. 1 \<le> j \<and> j < 2 \<longrightarrow> column_well_formed (ths ?r0) (tds ex_row_Komfort_120) j"
    proof (intro allI impI)
      fix j :: nat
      assume "1 \<le> j \<and> j < 2"
      then have "j = 1" by simp
      then show "column_well_formed (ths ?r0) (tds ex_row_Komfort_120) j"
        by (simp add: column_well_formed_def cells ex_cells) (simp add: ascii_def)
    qed
    have lab: "label_resolves ?self (strip ex_Komfort_120)"
      by (simp add: label_resolves_def ex_labels) (simp add: ascii_def)
    have head: "re_search_digits (strip (ths ?r0 ! 2)) = None"
      by (simp add: ex_cells)
    from malformed_cell_aborts_call [OF page tables, where ?s2.0 = ?self
        and ?c0.0 = ex_Komfort_120 and cells = "[ascii ''600'', ascii ''800'']" and i = 2]
      ex_heads(4,5) rows cells before_i lab head
    show ?thesis by simp
  qed
  have w4: "ParserRialcom_process_data (DataRialcom_init [ex_table_A, ex_table_B_late])
     = Inl (ValueError (Invalid_literal ex_utochnit)) \<and>
     save_data ex_pandas (DataRialcom_init [ex_table_A, ex_table_B_late]) (ascii ''example'')
     = Inl (ValueError (Invalid_literal ex_utochnit))"
  proof -
    let ?self = "DataRialcom_init [ex_table_A, ex_table_B_late]"
    let ?r = "\<lparr>ths = [], tds = [ex_Komfort, ascii ''650'', ex_utochnit]\<rparr>"
    have page: "data ?self = [ex_table_A] @ (ex_head_B # [ex_row_Komfort_120] @ ?r # []) # []"
      by (simp add: ex_table_B_late_def)
    obtain s where tables: "for_each process_table [ex_table_A] (DataRialcom_init (data ?self)) = Inr s"
      and reg: "count_tariff_channel s = Map.empty"
      by (simp add: ex_table_A_run)
    obtain s2 where rows: "for_each (process_tariff_TV_row (ths ex_head_B)) [ex_row_Komfort_120] s
        = Inr s2"
      and reg2: "count_tariff_channel s2 ex_Komfort = Some 120"
      by (simp add: ex_row_Komfort_120_run reg)
    have cells: "tds ?r = ex_Komfort # [ascii ''650'', ex_utochnit]"
      by simp
    have heads: "ths ex_head_B = [ex_Paket, ex_Internet_50, ex_Internet_100]"
      by (simp add: ex_head_B_def)
    have before_i: "\<forall>j. 1 \<le> j \<and> j < 2 \<longrightarrow> column_well_formed (ths ex_head_B) (tds ?r) j"
    proof (intro allI impI)
      fix j :: nat
      assume "1 \<le> j \<and> j < 2"
      then have "j = 1" by simp
      then show "column_well_formed (ths ex_head_B) (tds ?r) j"
        by (simp add: column_well_formed_def heads ex_cells) (simp add: ascii_def)
    qed
    have known: "label_resolves s2 (strip ex_Komfort)"
      by (simp add: label_resolves_def ex_labels reg2)
    have head: "re_search_digits (strip (ths ex_head_B ! 2)) = Some (ascii ''100'')"
      by (simp add: heads ex_cells)
    have digits: "length (ascii ''100'') \<le> 4300"
      by (simp add: ascii_def)
    have pay: "py_int (strip (tds ?r ! 2)) = Inl (ValueError (Invalid_literal ex_utochnit))"
      by (simp add: ex_cells)
    from malformed_cell_aborts_call [OF page tables, where ?s2.0 = s2
        and ?c0.0 = ex_Komfort and cells = "[ascii ''650'', ex_utochnit]" and i = 2
        and g = "ascii ''100''"
        and err = "ValueError (Invalid_literal ex_utochnit)"
        and e = "ValueError (Invalid_literal ex_utochnit)"
        and pd = ex_pandas and name = "ascii ''example''"]
      ex_heads(2,3) rows cells before_i known head digits pay
    show ?thesis by (simp add: heads ex_cells)
  qed
  from w1 w1b w2 w3 w4 show ?thesis by blast
qed

text \<open>
  The exception of the call does not tell the table, the row or the field of the cell
  in these four calls. The text that is no
  payment stands in the payment token of data row 1 of table 0, a table of format 1, on
  the first page, and in column 2 of data row 2 of table 1, a table of format 2, on the
  second page: the two calls raise the same \<open>ValueError\<close>. The digit run is missing in
  cell 3 of data row 2 of table 1, of format 1, on the third page, and in header cell 2
  of table 0, of format 2, on the fourth page: the two calls raise the same
  \<open>AttributeError\<close>.
\<close>

theorem exception_without_position_counterexample:
  "ParserRialcom_process_data (DataRialcom_init [ex_table_A_no_payment])
     = Inl (ValueError (Invalid_literal ex_utochnit)) \<and>
   ParserRialcom_process_data (DataRialcom_init [ex_table_A, ex_table_B_late])
     = Inl (ValueError (Invalid_literal ex_utochnit)) \<and>
   ParserRialcom_process_data (DataRialcom_init [ex_table_B, ex_table_A_no_speed])
     = Inl (AttributeError (ascii ''group'')) \<and>
   ParserRialcom_process_data (DataRialcom_init [ex_table_B_no_speed])
     = Inl (AttributeError (ascii ''group''))"
proof -
  have "ParserRialcom_process_data (DataRialcom_init [ex_table_A_no_payment])
     = Inl (ValueError (Invalid_literal ex_utochnit))"
    by (simp add: ParserRialcom_process_data_def DataRialcom_process_data_def run_tables_def
        ex_table_A_no_payment_run)
  moreover have "ParserRialcom_process_data (DataRialcom_init [ex_table_A, ex_table_B_late])
     = Inl (ValueError (Invalid_literal ex_utochnit))"
    by (simp add: ParserRialcom_process_data_def DataRialcom_process_data_def run_tables_def
        Let_def ex_table_A_run ex_table_B_late_run)
  moreover have "ParserRialcom_process_data (DataRialcom_init [ex_table_B, ex_table_A_no_speed])
     = Inl (AttributeError (ascii ''group''))"
    by (simp add: ParserRialcom_process_data_def DataRialcom_process_data_def run_tables_def
        Let_def ex_table_B_run ex_table_A_no_speed_run)
  moreover have "ParserRialcom_process_data (DataRialcom_init [ex_table_B_no_speed])
     = Inl (AttributeError (ascii ''group''))"
    by (simp add: ParserRialcom_process_data_def DataRialcom_process_data_def run_tables_def
        ex_table_B_no_speed_run)
  ultimately show ?thesis by blast
qed




section \<open>The registry of one call\<close>

text \<open>
  C8. \<open>ParserRialcom.process_data\<close> builds a new \<open>DataRialcom\<close> object at every call,
  and the registry of a new object is empty. The call returns what that object computes
  from \<open>self.data\<close> alone: whatever the lists and the registry of the parser object
  hold, from an earlier call or otherwise, has no effect on the result, and the call
  leaves the parser object as it is.
\<close>

theorem registry_lives_for_one_call:
  "count_tariff_channel (DataRialcom_init d) = Map.empty \<and>
   ParserRialcom_process_data self = DataRialcom_process_data (DataRialcom_init (data self)) \<and>
   (data self = data other \<longrightarrow>
      ParserRialcom_process_data self = ParserRialcom_process_data other)"
  by (simp add: ParserRialcom_process_data_def DataRialcom_init_def)

theorem registry_lives_for_one_call_witness:
  "data ex_parser_with_registry = data (DataRialcom_init [ex_table_B]) \<and>
   count_tariff_channel ex_parser_with_registry ex_Komfort_120 = Some 5 \<and>
   ParserRialcom_process_data ex_parser_with_registry =
     ParserRialcom_process_data (DataRialcom_init [ex_table_B]) \<and>
   ParserRialcom_process_data ex_parser_with_registry =
     Inr [[PyStr (ex_Komfort_120 @ lit_connector @ ascii ''50'' @ lit_TB),
           PyStr (ex_Komfort_120 @ lit_connector @ ascii ''100'' @ lit_TB)],
          [PyInt 120, PyInt 120],
          [PyInt 50, PyInt 100],
          [PyInt 600, PyInt 800]]"
proof -
  have d: "data ex_parser_with_registry = data (DataRialcom_init [ex_table_B])"
    and r: "count_tariff_channel ex_parser_with_registry ex_Komfort_120 = Some 5"
    by (simp_all add: ex_parser_with_registry_def)
  from registry_lives_for_one_call [of "[]" ex_parser_with_registry "DataRialcom_init [ex_table_B]"] d
  have same: "ParserRialcom_process_data ex_parser_with_registry =
     ParserRialcom_process_data (DataRialcom_init [ex_table_B])"
    by blast
  have "ParserRialcom_process_data (DataRialcom_init [ex_table_B]) =
     Inr [[PyStr (ex_Komfort_120 @ lit_connector @ ascii ''50'' @ lit_TB),
           PyStr (ex_Komfort_120 @ lit_connector @ ascii ''100'' @ lit_TB)],
          [PyInt 120, PyInt 120],
          [PyInt 50, PyInt 100],
          [PyInt 600, PyInt 800]]"
    by (simp add: ParserRialcom_process_data_def DataRialcom_process_data_def run_tables_def
        Let_def ex_table_B_run result_lists_def)
       (simp add: DataRialcom_init_def)
  with d r same show ?thesis by simp
qed

section \<open>The export\<close>





end
